theory Spec2Isabelle
  imports
    Complex_Main
    "HOL-Library.Sublist"
    "HOL-Library.Char_ord"
    "HOL-Library.List_Lexorder"
    "HOL-Library.Multiset"
begin

section \<open>Values of the host language\<close>

text \<open>
  The gallery generator is TypeScript. Strings are modelled as \<^typ>\<open>string\<close>, one
  \<^typ>\<open>char\<close> per code unit, ordered by value (the order the default
  \<^verbatim>\<open>Array.prototype.sort\<close> uses); the generator only copies and compares code units.
  \<^verbatim>\<open>undefined\<close> and an omitted property are \<^const>\<open>None\<close>.

  \<^verbatim>\<open>JSON.parse\<close> returns an arbitrary JSON value; the type annotation
  \<^verbatim>\<open>ReleaseMetadata | null\<close> in the source is not checked at run time, so the parsed
  release body is kept as a value of the following type. An object holds its own
  properties with unique keys.
\<close>

datatype json =
    JNull
  | JBool bool
  | JNum rat
  | JStr string
  | JArr "json list"
  | JObj "(string \<times> json) list"

text \<open>
  \<^verbatim>\<open>v?.k\<close> for a key \<^verbatim>\<open>k\<close> that is neither \<^verbatim>\<open>length\<close> nor an index nor defined
  by a prototype: only an object can carry it. The source reads
  \<^verbatim>\<open>minimumConnectVersion\<close>, \<^verbatim>\<open>requiredFeatures\<close> and \<^verbatim>\<open>requiredEnvironment\<close> this way.
  It reads \<^verbatim>\<open>metadata.k\<close> without the \<^verbatim>\<open>?\<close> only where \<^verbatim>\<open>metadata?.k\<close> has just
  been found truthy, so never on null, where the two would differ.
\<close>

fun getProp :: "json \<Rightarrow> string \<Rightarrow> json option" where
  "getProp (JObj kvs) k = map_of kvs k"
| "getProp _ k = None"

text \<open>\<^verbatim>\<open>x?.length\<close>, where \<^verbatim>\<open>x\<close> may be undefined.\<close>

fun lengthOf :: "json option \<Rightarrow> json option" where
  "lengthOf None = None"
| "lengthOf (Some (JStr s)) = Some (JNum (of_nat (length s)))"
| "lengthOf (Some (JArr xs)) = Some (JNum (of_nat (length xs)))"
| "lengthOf (Some (JObj kvs)) = map_of kvs ''length''"
| "lengthOf (Some _) = None"

text \<open>Conversion to a boolean, as \<^verbatim>\<open>?:\<close>, \<^verbatim>\<open>||\<close> and \<^verbatim>\<open>!\<close> perform it.\<close>

fun truthy :: "json \<Rightarrow> bool" where
  "truthy JNull = False"
| "truthy (JBool b) = b"
| "truthy (JNum n) = (n \<noteq> 0)"
| "truthy (JStr s) = (s \<noteq> [])"
| "truthy (JArr xs) = True"
| "truthy (JObj kvs) = True"

fun truthyOpt :: "json option \<Rightarrow> bool" where
  "truthyOpt None = False"
| "truthyOpt (Some v) = truthy v"

subsection \<open>Strings: \<^verbatim>\<open>startsWith\<close>, \<^verbatim>\<open>indexOf\<close>, \<^verbatim>\<open>split\<close>\<close>

definition startsWith :: "string \<Rightarrow> string \<Rightarrow> bool" where
  "startsWith s p = prefix p s"

text \<open>The index of the first occurrence of \<open>sep\<close> in a string, if there is one.\<close>

fun indexOf :: "string \<Rightarrow> string \<Rightarrow> nat option" where
  "indexOf sep [] = (if sep = [] then Some 0 else None)"
| "indexOf sep (c # cs) =
     (if prefix sep (c # cs) then Some 0 else map_option Suc (indexOf sep cs))"

lemma indexOf_bound: "indexOf sep s = Some j \<Longrightarrow> j + length sep \<le> length s"
proof (induction s arbitrary: j)
  case Nil
  then show ?case by (simp split: if_splits)
next
  case (Cons c cs)
  show ?case
  proof (cases "prefix sep (c # cs)")
    case True
    with Cons.prems have "j = 0" by simp
    with prefix_length_le [OF True] show ?thesis by simp
  next
    case False
    with Cons.prems obtain i where "indexOf sep cs = Some i" "j = Suc i" by auto
    with Cons.IH [of i] show ?thesis by simp
  qed
qed

text \<open>
  \<^verbatim>\<open>s.split(sep)\<close> for a non-empty separator: the pieces of \<open>s\<close> between successive
  occurrences of \<open>sep\<close>, each occurrence searched from the end of the previous one.
  An empty separator cuts the string into its code units.
\<close>

function splitFrom :: "string \<Rightarrow> string \<Rightarrow> string list" where
  "splitFrom sep s =
     (if sep = [] then [s]
      else case indexOf sep s of
             None \<Rightarrow> [s]
           | Some j \<Rightarrow> take j s # splitFrom sep (drop (j + length sep) s))"
  by pat_completeness auto
termination
proof (relation "measure (\<lambda>(sep, s). length s)")
  show "wf (measure (\<lambda>(sep, s). length s))" by simp
next
  fix sep s :: string and j
  assume "sep \<noteq> []" and "indexOf sep s = Some j"
  then have "0 < length sep" and "j + length sep \<le> length s"
    using indexOf_bound [of sep s j] by simp_all
  then have "length s - (j + length sep) < length s"
    by arith
  then show "((sep, drop (j + length sep) s), (sep, s)) \<in> measure (\<lambda>(sep, s). length s)"
    by simp
qed

declare splitFrom.simps [simp del]

definition split :: "string \<Rightarrow> string \<Rightarrow> string list" where
  "split s sep = (if sep = [] then map (\<lambda>c. [c]) s else splitFrom sep s)"

text \<open>
  Everything after the first occurrence of a separator (nothing when it does not occur),
  and everything before it (the whole string when it does not occur).
\<close>

definition afterFirst :: "string \<Rightarrow> string \<Rightarrow> string" where
  "afterFirst sep s = (case indexOf sep s of None \<Rightarrow> [] | Some j \<Rightarrow> drop (j + length sep) s)"

definition beforeFirst :: "string \<Rightarrow> string \<Rightarrow> string" where
  "beforeFirst sep s = (case indexOf sep s of None \<Rightarrow> s | Some j \<Rightarrow> take j s)"

text \<open>\<^verbatim>\<open>xs[i]\<close>: undefined beyond the end of the array.\<close>

fun nth_opt :: "'a list \<Rightarrow> nat \<Rightarrow> 'a option" where
  "nth_opt [] i = None"
| "nth_opt (x # xs) 0 = Some x"
| "nth_opt (x # xs) (Suc i) = nth_opt xs i"

section \<open>Data model (\<^verbatim>\<open>types/index.ts\<close>)\<close>

record Category =
  cat_id :: string
  cat_title :: string
  cat_description :: string

record GalleryConfig =
  categories :: "Category list"

record LanguageRequirement =
  requires :: string

record ExtensionEnvironment =
  env_python :: "LanguageRequirement option"
  env_r :: "LanguageRequirement option"
  env_quarto :: "LanguageRequirement option"

text \<open>The object under the manifest's \<^verbatim>\<open>extension\<close> key.\<close>

record ManifestExtension =
  m_name :: string
  m_title :: string
  m_description :: string
  m_homepage :: string
  m_version :: string
  m_minimumConnectVersion :: string
  m_requiredFeatures :: "string list option"
  m_category :: "string option"
  m_tags :: "string list option"

record ExtensionManifest =
  extension :: ManifestExtension
  environment :: "ExtensionEnvironment option"

text \<open>
  The three metadata fields of a version come either from the parsed release body (any
  JSON value) or from the manifest, so they are JSON values; a manifest value is
  embedded by \<open>langJson\<close>, \<open>envJson\<close> and \<open>featuresJson\<close> below.
\<close>

record ExtensionVersion =
  version :: string
  released :: string
  url :: string
  minimumConnectVersion :: json
  requiredFeatures :: "json option"
  requiredEnvironment :: "json option"

record Extension =
  name :: string
  title :: string
  description :: string
  homepage :: string
  latestVersion :: ExtensionVersion
  versions :: "ExtensionVersion list"
  tags :: "string list"
  category :: "string option"

record GitHubReleaseAsset =
  asset_name :: string
  asset_url :: string

record GitHubRelease =
  tagName :: string
  publishedAt :: string
  assets :: "GitHubReleaseAsset list"
  body :: string

definition langJson :: "LanguageRequirement \<Rightarrow> json" where
  "langJson l = JObj [(''requires'', JStr (requires l))]"

fun entry :: "string \<Rightarrow> LanguageRequirement option \<Rightarrow> (string \<times> json) list" where
  "entry k None = []"
| "entry k (Some l) = [(k, langJson l)]"

definition envJson :: "ExtensionEnvironment \<Rightarrow> json" where
  "envJson e =
     JObj (entry ''python'' (env_python e) @ entry ''r'' (env_r e) @ entry ''quarto'' (env_quarto e))"

definition featuresJson :: "string list \<Rightarrow> json" where
  "featuresJson fs = JArr (map JStr fs)"

section \<open>External collaborators\<close>

text \<open>
  The library calls the source makes and whose code is not part of the repository:
  \<^verbatim>\<open>JSON.parse\<close> (\<^const>\<open>None\<close> when it throws), \<^verbatim>\<open>semver/functions/valid\<close> (true
  when the result is not null), \<^verbatim>\<open>semver/functions/rcompare\<close> and
  \<^verbatim>\<open>String.prototype.localeCompare\<close>. The functions of the generator take them as a
  parameter.
\<close>

record host =
  JSON_parse :: "string \<Rightarrow> json option"
  semverValid :: "string \<Rightarrow> bool"
  semverRcompare :: "string \<Rightarrow> string \<Rightarrow> int"
  localeCompare :: "string \<Rightarrow> string \<Rightarrow> int"

section \<open>\<^verbatim>\<open>parseExtensionRelease\<close>\<close>

text \<open>
  Line 24 of the source: \<^verbatim>\<open>release.tagName.split("@v")[1]\<close>, undefined when the
  split has one piece only; \<^verbatim>\<open>semverValid\<close> answers null for a value that is not a
  string.
\<close>

definition extractVersion :: "string \<Rightarrow> string option" where
  "extractVersion tag = nth_opt (split tag ''@v'') 1"

text \<open>
  Lines 29 to 34: \<^verbatim>\<open>metadata\<close> starts as null and keeps that value when
  \<^verbatim>\<open>JSON.parse\<close> throws.
\<close>

definition parseMetadata :: "host \<Rightarrow> string \<Rightarrow> json" where
  "parseMetadata h b = (case JSON_parse h b of None \<Rightarrow> JNull | Some v \<Rightarrow> v)"

definition parseExtensionRelease ::
  "host \<Rightarrow> GitHubRelease \<Rightarrow> string \<Rightarrow> ExtensionManifest \<Rightarrow> ExtensionVersion option" where
  "parseExtensionRelease h release extensionName manifest =
     (if \<not> startsWith (tagName release) (extensionName @ ''@v'') then None
      else
        let ver = extractVersion (tagName release);
            asset = find (\<lambda>a. asset_name a = extensionName @ ''.tar.gz'') (assets release)
        in case asset of
             None \<Rightarrow> None
           | Some a \<Rightarrow>
               let metadata = parseMetadata h (body release)
               in (case ver of
                    None \<Rightarrow> None
                  | Some v \<Rightarrow>
                      if \<not> semverValid h v then None
                      else Some \<lparr>
                        version = v,
                        released = publishedAt release,
                        url = asset_url a,
                        minimumConnectVersion =
                          (let mcv = getProp metadata ''minimumConnectVersion''
                           in if truthyOpt mcv then the mcv
                              else JStr (m_minimumConnectVersion (extension manifest))),
                        requiredFeatures =
                          (let rf = getProp metadata ''requiredFeatures''
                           in if truthyOpt (lengthOf rf) then rf
                              else case m_requiredFeatures (extension manifest) of
                                     None \<Rightarrow> None
                                   | Some fs \<Rightarrow> if fs \<noteq> [] then Some (featuresJson fs) else None),
                        requiredEnvironment =
                          (let re = getProp metadata ''requiredEnvironment''
                           in if truthyOpt re then re
                              else map_option envJson (environment manifest)) \<rparr>))"

section \<open>A sample host and the fixtures of the test suite\<close>

text \<open>
  The worked examples below run the generator with a small host: a table in place of
  \<^verbatim>\<open>JSON.parse\<close>, semantic versions and their precedence as the specification
  describes them, and code-unit order in place of the collation.
\<close>

definition metadataBody :: string where
  \<open>metadataBody = ''{"minimumConnectVersion":"2025.01.0","requiredFeatures":["feature-a"],"requiredEnvironment":{"python":{"requires":">=3.10"}}}''\<close>

definition emptyFieldsBody :: string where
  \<open>emptyFieldsBody = ''{"minimumConnectVersion":"","requiredFeatures":[]}''\<close>

definition sampleBodies :: "(string \<times> json) list" where
  \<open>sampleBodies =
    [(metadataBody,
        JObj [(''minimumConnectVersion'', JStr ''2025.01.0''),
              (''requiredFeatures'', JArr [JStr ''feature-a'']),
              (''requiredEnvironment'', JObj [(''python'', JObj [(''requires'', JStr ''>=3.10'')])])]),
     (emptyFieldsBody,
        JObj [(''minimumConnectVersion'', JStr []), (''requiredFeatures'', JArr [])]),
     (''{}'', JObj []),
     (''null'', JNull),
     (''42'', JNum 42),
     (''"notes"'', JStr ''notes''),
     (''["a"]'', JArr [JStr ''a''])]\<close>

text \<open>
  Modelled from the spec: semantic versions ("standard major.minor.patch semantics, with
  optional pre-release/build metadata") and their precedence ("major, then minor, then
  patch, then pre-release tag ordering"). The source takes both from the semver
  package, whose code is not part of the repository. A version is
  \<^verbatim>\<open>MAJOR.MINOR.PATCH\<close>, then \<^verbatim>\<open>-\<close> and dot-separated pre-release identifiers, then
  \<^verbatim>\<open>+\<close> and dot-separated build identifiers; numeric identifiers have no leading
  zero. Build metadata plays no part in the precedence.
\<close>

datatype ident = Numeric nat | Alphanumeric string

record SemVer =
  major :: nat
  minor :: nat
  patch :: nat
  prerelease :: "ident list"

definition isDigit :: "char \<Rightarrow> bool" where
  "isDigit c = (CHR ''0'' \<le> c \<and> c \<le> CHR ''9'')"

definition isLetter :: "char \<Rightarrow> bool" where
  "isLetter c = ((CHR ''a'' \<le> c \<and> c \<le> CHR ''z'') \<or> (CHR ''A'' \<le> c \<and> c \<le> CHR ''Z''))"

definition numericId :: "string \<Rightarrow> bool" where
  "numericId s = (s \<noteq> [] \<and> list_all isDigit s \<and> (s = ''0'' \<or> hd s \<noteq> CHR ''0''))"

definition buildId :: "string \<Rightarrow> bool" where
  "buildId s = (s \<noteq> [] \<and> list_all (\<lambda>c. isDigit c \<or> isLetter c \<or> c = CHR ''-'') s)"

definition prereleaseId :: "string \<Rightarrow> bool" where
  "prereleaseId s = (buildId s \<and> (numericId s \<or> \<not> list_all isDigit s))"

definition toNat :: "string \<Rightarrow> nat" where
  "toNat s = foldl (\<lambda>n c. 10 * n + (of_char c - 48)) 0 s"

definition toIdentifier :: "string \<Rightarrow> ident" where
  "toIdentifier s = (if list_all isDigit s then Numeric (toNat s) else Alphanumeric s)"

text \<open>The part after the first occurrence of a mark, when the mark occurs.\<close>

definition suffixAt :: "string \<Rightarrow> string \<Rightarrow> string option" where
  "suffixAt mark s = (case indexOf mark s of None \<Rightarrow> None | Some j \<Rightarrow> Some (afterFirst mark s))"

definition parseSemVer :: "string \<Rightarrow> SemVer option" where
  "parseSemVer v =
     (let main = beforeFirst ''+'' v;
          build = suffixAt ''+'' v;
          core = beforeFirst ''-'' main;
          pre = suffixAt ''-'' main
      in case split core ''.'' of
           [a, b, c] \<Rightarrow>
             if numericId a \<and> numericId b \<and> numericId c \<and>
                (case pre of None \<Rightarrow> True | Some p \<Rightarrow> list_all prereleaseId (split p ''.'')) \<and>
                (case build of None \<Rightarrow> True | Some m \<Rightarrow> list_all buildId (split m ''.''))
             then Some \<lparr>
               major = toNat a, minor = toNat b, patch = toNat c,
               prerelease = (case pre of None \<Rightarrow> [] | Some p \<Rightarrow> map toIdentifier (split p ''.'')) \<rparr>
             else None
         | _ \<Rightarrow> None)"

text \<open>\<^verbatim>\<open>a || b\<close> on the results of two comparisons.\<close>

definition orElse :: "int \<Rightarrow> int \<Rightarrow> int" where
  "orElse c d = (if c \<noteq> 0 then c else d)"

definition compareNumbers :: "nat \<Rightarrow> nat \<Rightarrow> int" where
  "compareNumbers a b = (if a < b then - 1 else if b < a then 1 else 0)"

fun compareIdentifiers :: "ident \<Rightarrow> ident \<Rightarrow> int" where
  "compareIdentifiers (Numeric a) (Numeric b) = compareNumbers a b"
| "compareIdentifiers (Numeric a) (Alphanumeric b) = - 1"
| "compareIdentifiers (Alphanumeric a) (Numeric b) = 1"
| "compareIdentifiers (Alphanumeric a) (Alphanumeric b) =
     (if a < b then - 1 else if b < a then 1 else 0)"

fun compareLists :: "ident list \<Rightarrow> ident list \<Rightarrow> int" where
  "compareLists [] [] = 0"
| "compareLists [] (b # bs) = - 1"
| "compareLists (a # as) [] = 1"
| "compareLists (a # as) (b # bs) = orElse (compareIdentifiers a b) (compareLists as bs)"

text \<open>A version without pre-release identifiers has precedence over one with them.\<close>

definition comparePre :: "ident list \<Rightarrow> ident list \<Rightarrow> int" where
  "comparePre a b =
     (if a \<noteq> [] \<and> b = [] then - 1
      else if a = [] \<and> b \<noteq> [] then 1
      else compareLists a b)"

definition compareMain :: "SemVer \<Rightarrow> SemVer \<Rightarrow> int" where
  "compareMain a b =
     orElse (compareNumbers (major a) (major b))
       (orElse (compareNumbers (minor a) (minor b)) (compareNumbers (patch a) (patch b)))"

definition compareSemVer :: "SemVer \<Rightarrow> SemVer \<Rightarrow> int" where
  "compareSemVer a b = orElse (compareMain a b) (comparePre (prerelease a) (prerelease b))"

definition sampleValid :: "string \<Rightarrow> bool" where
  "sampleValid v = (parseSemVer v \<noteq> None)"

text \<open>\<^verbatim>\<open>rcompare(a, b)\<close> is \<^verbatim>\<open>compare(b, a)\<close>.\<close>

definition sampleRcompare :: "string \<Rightarrow> string \<Rightarrow> int" where
  "sampleRcompare a b =
     (case (parseSemVer b, parseSemVer a) of
        (Some y, Some x) \<Rightarrow> compareSemVer y x
      | _ \<Rightarrow> 0)"

lemmas semver_defs =
  sampleValid_def sampleRcompare_def parseSemVer_def suffixAt_def beforeFirst_def afterFirst_def
  numericId_def buildId_def prereleaseId_def isDigit_def isLetter_def toNat_def toIdentifier_def
  compareSemVer_def compareMain_def comparePre_def compareNumbers_def orElse_def
  split_def splitFrom.simps Let_def

text \<open>
  The comparison the default \<^verbatim>\<open>sort()\<close> applies to two strings; the sample host
  uses it for \<^verbatim>\<open>localeCompare\<close> as well.
\<close>

definition sortCompare :: "string \<Rightarrow> string \<Rightarrow> int" where
  "sortCompare a b = (if a < b then - 1 else if b < a then 1 else 0)"

definition sampleHost :: host where
  "sampleHost = \<lparr>
     JSON_parse = map_of sampleBodies,
     semverValid = sampleValid,
     semverRcompare = sampleRcompare,
     localeCompare = sortCompare \<rparr>"

text \<open>\<^verbatim>\<open>makeManifest\<close> and \<^verbatim>\<open>makeRelease\<close> of \<^verbatim>\<open>generate-gallery-lib.test.ts\<close>.\<close>

definition makeManifest :: "string \<Rightarrow> string \<Rightarrow> ExtensionManifest" where
  "makeManifest nm ver = \<lparr>
     extension = \<lparr>
       m_name = nm,
       m_title = ''My Extension'',
       m_description = ''A test extension'',
       m_homepage = ''https://example.com'',
       m_version = ver,
       m_minimumConnectVersion = ''2024.01.0'',
       m_requiredFeatures = None,
       m_category = None,
       m_tags = Some [] \<rparr>,
     environment = None \<rparr>"

definition makeRelease :: "string \<Rightarrow> string \<Rightarrow> string \<Rightarrow> GitHubRelease" where
  "makeRelease tag file b = \<lparr>
     tagName = tag,
     publishedAt = ''2024-06-01T00:00:00Z'',
     assets = [\<lparr> asset_name = file, asset_url = ''https://example.com/'' @ file \<rparr>],
     body = b \<rparr>"

text \<open>\<^verbatim>\<open>fullManifest\<close> of the test suite: features and an environment in the manifest.\<close>

definition fullManifest :: ExtensionManifest where
  "fullManifest =
     (makeManifest ''my-ext'' ''1.0.0'') \<lparr>
       extension := extension (makeManifest ''my-ext'' ''1.0.0'')
         \<lparr> m_requiredFeatures := Some [''manifest-feature''] \<rparr>,
       environment := Some \<lparr> env_python = Some \<lparr> requires = ''>=3.9'' \<rparr>,
                              env_r = None, env_quarto = None \<rparr> \<rparr>"

lemmas sample_defs =
  sampleHost_def sampleBodies_def sortCompare_def metadataBody_def emptyFieldsBody_def
  makeManifest_def makeRelease_def fullManifest_def semver_defs

lemmas parse_defs =
  parseExtensionRelease_def extractVersion_def parseMetadata_def startsWith_def
  featuresJson_def envJson_def langJson_def Let_def

section \<open>The version a tag carries\<close>

text \<open>
  The two readings of "the version in the tag" are \<open>afterFirst\<close>, everything after the
  first \<^verbatim>\<open>@v\<close>, and the part of that up to the next \<^verbatim>\<open>@v\<close>, its \<open>beforeFirst\<close>.
\<close>

lemma indexOf_prefix: "prefix sep s \<Longrightarrow> indexOf sep s = Some 0"
  by (cases s) auto

lemma indexOf_prefix_append: "\<exists>j. indexOf sep (p @ sep @ t) = Some j"
  by (induction p) (auto simp: indexOf_prefix)

lemma startsWith_indexOf:
  assumes "startsWith s (p @ sep)"
  shows "\<exists>j. indexOf sep s = Some j"
proof -
  from assms obtain t where "s = p @ sep @ t"
    by (auto simp: startsWith_def prefix_def)
  then show ?thesis using indexOf_prefix_append [of sep p t] by simp
qed

lemma first_splitFrom: "sep \<noteq> [] \<Longrightarrow> nth_opt (splitFrom sep s) 0 = Some (beforeFirst sep s)"
  by (subst splitFrom.simps) (simp add: beforeFirst_def split: option.splits)

lemma second_split:
  assumes "sep \<noteq> []" and "indexOf sep s = Some j"
  shows "nth_opt (split s sep) 1 = Some (beforeFirst sep (afterFirst sep s))"
proof -
  have "splitFrom sep s = take j s # splitFrom sep (afterFirst sep s)"
    using assms by (subst splitFrom.simps) (simp add: afterFirst_def)
  with assms(1) first_splitFrom [of sep "afterFirst sep s"] show ?thesis
    by (simp add: split_def)
qed

lemma extractVersion_startsWith:
  assumes "startsWith tag (n @ ''@v'')"
  shows "extractVersion tag = Some (beforeFirst ''@v'' (afterFirst ''@v'' tag))"
proof -
  from startsWith_indexOf [OF assms] obtain j where "indexOf ''@v'' tag = Some j" ..
  then show ?thesis unfolding extractVersion_def by (intro second_split) simp_all
qed

lemma parse_Some_version:
  assumes "parseExtensionRelease h r n m = Some v"
  shows "startsWith (tagName r) (n @ ''@v'') \<and> extractVersion (tagName r) = Some (version v)"
  using assms
  by (auto simp: parseExtensionRelease_def Let_def split: if_splits option.splits)

lemma sample_release_two_markers:
  "parseExtensionRelease sampleHost (makeRelease ''my-ext@v1.0.0@v2'' ''my-ext.tar.gz'' [])
     ''my-ext'' (makeManifest ''my-ext'' ''1.0.0'') =
   Some \<lparr> version = ''1.0.0'', released = ''2024-06-01T00:00:00Z'',
          url = ''https://example.com/my-ext.tar.gz'',
          minimumConnectVersion = JStr ''2024.01.0'',
          requiredFeatures = None, requiredEnvironment = None \<rparr>"
  by (simp add: parse_defs sample_defs)

lemma sample_release_plain:
  "parseExtensionRelease sampleHost (makeRelease ''my-ext@v1.0.0'' ''my-ext.tar.gz'' [])
     ''my-ext'' (makeManifest ''my-ext'' ''1.0.0'') =
   Some \<lparr> version = ''1.0.0'', released = ''2024-06-01T00:00:00Z'',
          url = ''https://example.com/my-ext.tar.gz'',
          minimumConnectVersion = JStr ''2024.01.0'',
          requiredFeatures = None, requiredEnvironment = None \<rparr>"
  by (simp add: parse_defs sample_defs)

text \<open>
  Claim C1, as stated: after the prefix check, the extracted version is everything after
  the first \<^verbatim>\<open>@v\<close> of the tag, also when \<^verbatim>\<open>@v\<close> occurs again. The tag
  \<^verbatim>\<open>my-ext@v1.0.0@v2\<close> passes the prefix check for \<^verbatim>\<open>my-ext\<close>; everything after
  its first \<^verbatim>\<open>@v\<close> is \<^verbatim>\<open>1.0.0@v2\<close>, but the source extracts \<^verbatim>\<open>1.0.0\<close> and
  stores that in the result.
\<close>

theorem extractVersion_everything_after_counterexample:
  "startsWith ''my-ext@v1.0.0@v2'' (''my-ext'' @ ''@v'') \<and>
   afterFirst ''@v'' ''my-ext@v1.0.0@v2'' = ''1.0.0@v2'' \<and>
   extractVersion ''my-ext@v1.0.0@v2'' = Some ''1.0.0'' \<and>
   extractVersion ''my-ext@v1.0.0@v2'' \<noteq> Some (afterFirst ''@v'' ''my-ext@v1.0.0@v2'') \<and>
   map_option version
     (parseExtensionRelease sampleHost (makeRelease ''my-ext@v1.0.0@v2'' ''my-ext.tar.gz'' [])
        ''my-ext'' (makeManifest ''my-ext'' ''1.0.0'')) = Some ''1.0.0''"
  by (simp add: sample_release_two_markers)
    (simp add: startsWith_def afterFirst_def extractVersion_def split_def splitFrom.simps)

text \<open>
  Claim C1, amended: for a tag with the prefix \<^verbatim>\<open><extensionName>@v\<close>, the extracted
  version is the part of the tag between its first \<^verbatim>\<open>@v\<close> and the next \<^verbatim>\<open>@v\<close>
  (the end of the tag when there is none); it is everything after the first \<^verbatim>\<open>@v\<close>
  exactly when no \<^verbatim>\<open>@v\<close> follows, and it is the \<^verbatim>\<open>version\<close> field of every result.
\<close>

theorem extractVersion_segment:
  assumes "startsWith (tagName r) (n @ ''@v'')"
  shows "extractVersion (tagName r) = Some (beforeFirst ''@v'' (afterFirst ''@v'' (tagName r))) \<and>
         (extractVersion (tagName r) = Some (afterFirst ''@v'' (tagName r)) \<longleftrightarrow>
            indexOf ''@v'' (afterFirst ''@v'' (tagName r)) = None) \<and>
         (\<forall>v. parseExtensionRelease h r n m = Some v \<longrightarrow>
            version v = beforeFirst ''@v'' (afterFirst ''@v'' (tagName r)))"
proof -
  let ?rest = "afterFirst ''@v'' (tagName r)"
  have seg: "extractVersion (tagName r) = Some (beforeFirst ''@v'' ?rest)"
    by (rule extractVersion_startsWith [OF assms])
  have "beforeFirst ''@v'' ?rest = ?rest \<longleftrightarrow> indexOf ''@v'' ?rest = None"
  proof (cases "indexOf ''@v'' ?rest")
    case None
    then show ?thesis by (simp add: beforeFirst_def)
  next
    case (Some j)
    from indexOf_bound [OF Some] have "j < length ?rest" by simp
    with Some show ?thesis by (simp add: beforeFirst_def)
  qed
  moreover have "version v = beforeFirst ''@v'' ?rest"
    if "parseExtensionRelease h r n m = Some v" for v
    using parse_Some_version [OF that] seg by simp
  ultimately show ?thesis using seg by simp
qed

theorem extractVersion_segment_witness:
  "startsWith (tagName (makeRelease ''my-ext@v1.0.0@v2'' ''my-ext.tar.gz'' [])) (''my-ext'' @ ''@v'') \<and>
   extractVersion ''my-ext@v1.0.0@v2'' = Some ''1.0.0'' \<and>
   indexOf ''@v'' (afterFirst ''@v'' ''my-ext@v1.0.0@v2'') \<noteq> None \<and>
   startsWith (tagName (makeRelease ''my-ext@v1.0.0'' ''my-ext.tar.gz'' [])) (''my-ext'' @ ''@v'') \<and>
   extractVersion ''my-ext@v1.0.0'' = Some (afterFirst ''@v'' ''my-ext@v1.0.0'') \<and>
   (\<exists>v. parseExtensionRelease sampleHost (makeRelease ''my-ext@v1.0.0'' ''my-ext.tar.gz'' [])
          ''my-ext'' (makeManifest ''my-ext'' ''1.0.0'') = Some v \<and>
        version v = beforeFirst ''@v'' (afterFirst ''@v'' ''my-ext@v1.0.0''))"
proof -
  let ?r2 = "makeRelease ''my-ext@v1.0.0@v2'' ''my-ext.tar.gz'' []"
  let ?r1 = "makeRelease ''my-ext@v1.0.0'' ''my-ext.tar.gz'' []"
  let ?m = "makeManifest ''my-ext'' ''1.0.0''"
  have p2: "startsWith (tagName ?r2) (''my-ext'' @ ''@v'')"
    and p1: "startsWith (tagName ?r1) (''my-ext'' @ ''@v'')"
    by (simp_all add: makeRelease_def startsWith_def)
  have t2: "tagName ?r2 = ''my-ext@v1.0.0@v2''" and t1: "tagName ?r1 = ''my-ext@v1.0.0''"
    by (simp_all add: makeRelease_def)
  have e2: "beforeFirst ''@v'' (afterFirst ''@v'' ''my-ext@v1.0.0@v2'') = ''1.0.0''"
    and n2: "indexOf ''@v'' (afterFirst ''@v'' ''my-ext@v1.0.0@v2'') \<noteq> None"
    and n1: "indexOf ''@v'' (afterFirst ''@v'' ''my-ext@v1.0.0'') = None"
    by (simp_all add: beforeFirst_def afterFirst_def)
  note two = extractVersion_segment [OF p2, of sampleHost ?m, unfolded t2 e2]
  note one = extractVersion_segment [OF p1, of sampleHost ?m, unfolded t1]
  from two have a: "extractVersion ''my-ext@v1.0.0@v2'' = Some ''1.0.0''"
    by simp
  from one n1 have b: "extractVersion ''my-ext@v1.0.0'' = Some (afterFirst ''@v'' ''my-ext@v1.0.0'')"
    by blast
  from one sample_release_plain
  have c: "\<exists>v. parseExtensionRelease sampleHost ?r1 ''my-ext'' ?m = Some v \<and>
             version v = beforeFirst ''@v'' (afterFirst ''@v'' ''my-ext@v1.0.0'')"
    by simp
  from p2 a n2 p1 b c show ?thesis
    by (intro conjI)
qed

section \<open>Which releases are rejected\<close>

lemma find_None_set: "find P xs = None \<longleftrightarrow> (\<forall>x\<in>set xs. \<not> P x)"
  by (induction xs) auto

lemma parse_None_iff:
  "parseExtensionRelease h r n m = None \<longleftrightarrow>
     \<not> startsWith (tagName r) (n @ ''@v'') \<or>
     find (\<lambda>a. asset_name a = n @ ''.tar.gz'') (assets r) = None \<or>
     \<not> (\<exists>v. extractVersion (tagName r) = Some v \<and> semverValid h v)"
  by (auto simp: parseExtensionRelease_def Let_def split: option.splits)

text \<open>
  Claim C2: the result is none exactly when the tag lacks the prefix
  \<^verbatim>\<open><extensionName>@v\<close>, or no asset is named \<^verbatim>\<open><extensionName>.tar.gz\<close>, or the
  extracted version is not a valid semantic version; the release body plays no part in
  it.
\<close>

theorem parseExtensionRelease_none_iff:
  "(parseExtensionRelease h r n m = None \<longleftrightarrow>
      \<not> startsWith (tagName r) (n @ ''@v'') \<or>
      \<not> (\<exists>a\<in>set (assets r). asset_name a = n @ ''.tar.gz'') \<or>
      \<not> (\<exists>v. extractVersion (tagName r) = Some v \<and> semverValid h v)) \<and>
   (\<forall>b. parseExtensionRelease h (r\<lparr>body := b\<rparr>) n m = None \<longleftrightarrow>
      parseExtensionRelease h r n m = None)"
  by (simp add: parse_None_iff find_None_set)

theorem parseExtensionRelease_none_iff_witness:
  "parseExtensionRelease sampleHost (makeRelease ''other-ext@v1.0.0'' ''my-ext.tar.gz'' [])
     ''my-ext'' (makeManifest ''my-ext'' ''1.0.0'') = None \<and>
   parseExtensionRelease sampleHost (makeRelease ''my-ext@v1.0.0'' ''my-ext.tar.gz'' [] \<lparr>assets := []\<rparr>)
     ''my-ext'' (makeManifest ''my-ext'' ''1.0.0'') = None \<and>
   parseExtensionRelease sampleHost (makeRelease ''my-ext@vnot-a-version'' ''my-ext.tar.gz'' [])
     ''my-ext'' (makeManifest ''my-ext'' ''1.0.0'') = None \<and>
   JSON_parse sampleHost ''just some release notes'' = None \<and>
   parseExtensionRelease sampleHost
     (makeRelease ''my-ext@v1.0.0'' ''my-ext.tar.gz'' ''just some release notes'')
     ''my-ext'' (makeManifest ''my-ext'' ''1.0.0'') \<noteq> None"
proof -
  let ?m = "makeManifest ''my-ext'' ''1.0.0''"
  let ?ok = "makeRelease ''my-ext@v1.0.0'' ''my-ext.tar.gz'' []"
  have "\<not> startsWith (tagName (makeRelease ''other-ext@v1.0.0'' ''my-ext.tar.gz'' [])) (''my-ext'' @ ''@v'')"
    by (simp add: makeRelease_def startsWith_def)
  with parseExtensionRelease_none_iff [of sampleHost "makeRelease ''other-ext@v1.0.0'' ''my-ext.tar.gz'' []"
      "''my-ext''" ?m]
  have a: "parseExtensionRelease sampleHost (makeRelease ''other-ext@v1.0.0'' ''my-ext.tar.gz'' [])
     ''my-ext'' ?m = None"
    by blast
  have "\<not> (\<exists>a\<in>set (assets (?ok\<lparr>assets := []\<rparr>)). asset_name a = ''my-ext'' @ ''.tar.gz'')"
    by simp
  with parseExtensionRelease_none_iff [of sampleHost "?ok\<lparr>assets := []\<rparr>" "''my-ext''" ?m]
  have b: "parseExtensionRelease sampleHost (?ok\<lparr>assets := []\<rparr>) ''my-ext'' ?m = None"
    by blast
  have "extractVersion (tagName (makeRelease ''my-ext@vnot-a-version'' ''my-ext.tar.gz'' [])) = Some ''not-a-version''"
    and "\<not> semverValid sampleHost ''not-a-version''"
    by (simp_all add: extractVersion_def sample_defs)
  then have "\<not> (\<exists>v. extractVersion (tagName (makeRelease ''my-ext@vnot-a-version'' ''my-ext.tar.gz'' [])) = Some v \<and> semverValid sampleHost v)"
    by simp
  with parseExtensionRelease_none_iff [of sampleHost "makeRelease ''my-ext@vnot-a-version'' ''my-ext.tar.gz'' []"
      "''my-ext''" ?m]
  have c: "parseExtensionRelease sampleHost (makeRelease ''my-ext@vnot-a-version'' ''my-ext.tar.gz'' [])
     ''my-ext'' ?m = None"
    by blast
  have d: "JSON_parse sampleHost ''just some release notes'' = None"
    by (simp add: sample_defs)
  have "?ok\<lparr>body := ''just some release notes''\<rparr> =
      makeRelease ''my-ext@v1.0.0'' ''my-ext.tar.gz'' ''just some release notes''"
    by (simp add: makeRelease_def)
  with parseExtensionRelease_none_iff [of sampleHost ?ok "''my-ext''" ?m] sample_release_plain
  have e: "parseExtensionRelease sampleHost
     (makeRelease ''my-ext@v1.0.0'' ''my-ext.tar.gz'' ''just some release notes'') ''my-ext'' ?m \<noteq> None"
    by (metis option.distinct(1))
  from a b c d e show ?thesis by (intro conjI)
qed

section \<open>Metadata: release body first, manifest second\<close>

text \<open>
  The value the release body gives for a key: present when the body parses and the
  parsed value carries the key.
\<close>

definition bodyField :: "host \<Rightarrow> GitHubRelease \<Rightarrow> string \<Rightarrow> json option" where
  "bodyField h r k = (case JSON_parse h (body r) of None \<Rightarrow> None | Some md \<Rightarrow> getProp md k)"

text \<open>What the manifest alone gives for the two optional fields.\<close>

definition manifestFeatures :: "ExtensionManifest \<Rightarrow> json option" where
  "manifestFeatures m =
     (case m_requiredFeatures (extension m) of
        None \<Rightarrow> None
      | Some fs \<Rightarrow> if fs \<noteq> [] then Some (featuresJson fs) else None)"

definition manifestEnvironment :: "ExtensionManifest \<Rightarrow> json option" where
  "manifestEnvironment m = map_option envJson (environment m)"

definition isObject :: "json \<Rightarrow> bool" where
  "isObject j = (case j of JObj kvs \<Rightarrow> True | _ \<Rightarrow> False)"

definition carriesMetadata :: "json \<Rightarrow> bool" where
  "carriesMetadata j =
     (\<exists>k\<in>{''minimumConnectVersion'', ''requiredFeatures'', ''requiredEnvironment''}.
        getProp j k \<noteq> None)"

lemma getProp_metadata: "getProp (parseMetadata h (body r)) k = bodyField h r k"
  by (simp add: parseMetadata_def bodyField_def split: option.splits)

lemma parse_Some_fields:
  assumes "parseExtensionRelease h r n m = Some v"
  shows "minimumConnectVersion v =
           (case bodyField h r ''minimumConnectVersion'' of
              None \<Rightarrow> JStr (m_minimumConnectVersion (extension m))
            | Some x \<Rightarrow> if truthy x then x else JStr (m_minimumConnectVersion (extension m)))"
    and "requiredFeatures v =
           (if truthyOpt (lengthOf (bodyField h r ''requiredFeatures''))
            then bodyField h r ''requiredFeatures'' else manifestFeatures m)"
    and "requiredEnvironment v =
           (if truthyOpt (bodyField h r ''requiredEnvironment'')
            then bodyField h r ''requiredEnvironment'' else manifestEnvironment m)"
  using assms
  by (auto simp: parseExtensionRelease_def Let_def getProp_metadata manifestFeatures_def
      manifestEnvironment_def split: if_splits option.splits)

lemma lengthOf_truthy_cases:
  "truthyOpt (lengthOf x) \<Longrightarrow> x \<noteq> None \<and> x \<noteq> Some JNull \<and> x \<noteq> Some (JArr [])"
  by (cases x) auto

lemma manifestFeatures_nonempty:
  "manifestFeatures m \<noteq> Some (JArr []) \<and> manifestFeatures m \<noteq> Some JNull"
  by (auto simp: manifestFeatures_def featuresJson_def split: option.splits)

lemma manifestEnvironment_object: "manifestEnvironment m \<noteq> Some JNull"
  by (auto simp: manifestEnvironment_def envJson_def)

text \<open>
  Claim C5: a result always has \<^verbatim>\<open>minimumConnectVersion\<close> (the field is not optional
  in \<^typ>\<open>ExtensionVersion\<close>). It is the body's value when the body is valid JSON and
  carries a non-empty string there, and the manifest's value when the body is not
  valid JSON, or does not carry the field, or carries the empty string. For a value of
  another type, non-empty means truthy.
\<close>

theorem minimumConnectVersion_body_then_manifest:
  assumes "parseExtensionRelease h r n m = Some v"
  shows "(\<forall>s. bodyField h r ''minimumConnectVersion'' = Some (JStr s) \<and> s \<noteq> [] \<longrightarrow>
            minimumConnectVersion v = JStr s) \<and>
         (JSON_parse h (body r) = None \<or>
          bodyField h r ''minimumConnectVersion'' = None \<or>
          bodyField h r ''minimumConnectVersion'' = Some (JStr []) \<longrightarrow>
            minimumConnectVersion v = JStr (m_minimumConnectVersion (extension m))) \<and>
         (\<forall>x. bodyField h r ''minimumConnectVersion'' = Some x \<longrightarrow>
            minimumConnectVersion v =
              (if truthy x then x else JStr (m_minimumConnectVersion (extension m))))"
proof -
  have "bodyField h r ''minimumConnectVersion'' = None" if "JSON_parse h (body r) = None"
    using that by (simp add: bodyField_def)
  with parse_Some_fields(1) [OF assms] show ?thesis
    by (auto split: option.splits)
qed

lemma sample_release_metadata:
  \<open>parseExtensionRelease sampleHost
     (makeRelease ''my-ext@v1.0.0'' ''my-ext.tar.gz'' metadataBody)
     ''my-ext'' fullManifest =
   Some \<lparr> version = ''1.0.0'', released = ''2024-06-01T00:00:00Z'',
          url = ''https://example.com/my-ext.tar.gz'',
          minimumConnectVersion = JStr ''2025.01.0'',
          requiredFeatures = Some (JArr [JStr ''feature-a'']),
          requiredEnvironment = Some (JObj [(''python'', JObj [(''requires'', JStr ''>=3.10'')])]) \<rparr>\<close>
  by (simp add: parse_defs sample_defs)

lemma sample_release_notes:
  "parseExtensionRelease sampleHost
     (makeRelease ''my-ext@v1.0.0'' ''my-ext.tar.gz'' ''just some release notes'')
     ''my-ext'' fullManifest =
   Some \<lparr> version = ''1.0.0'', released = ''2024-06-01T00:00:00Z'',
          url = ''https://example.com/my-ext.tar.gz'',
          minimumConnectVersion = JStr ''2024.01.0'',
          requiredFeatures = Some (JArr [JStr ''manifest-feature'']),
          requiredEnvironment = Some (JObj [(''python'', JObj [(''requires'', JStr ''>=3.9'')])]) \<rparr>"
  by (simp add: parse_defs sample_defs)

lemma sample_release_empty_fields:
  \<open>parseExtensionRelease sampleHost
     (makeRelease ''my-ext@v1.0.0'' ''my-ext.tar.gz'' emptyFieldsBody)
     ''my-ext'' (makeManifest ''my-ext'' ''1.0.0'') =
   Some \<lparr> version = ''1.0.0'', released = ''2024-06-01T00:00:00Z'',
          url = ''https://example.com/my-ext.tar.gz'',
          minimumConnectVersion = JStr ''2024.01.0'',
          requiredFeatures = None, requiredEnvironment = None \<rparr>\<close>
  by (simp add: parse_defs sample_defs)


lemma sample_bodyField:
  "bodyField sampleHost (makeRelease t f metadataBody) ''minimumConnectVersion'' = Some (JStr ''2025.01.0'')"
  "bodyField sampleHost (makeRelease t f metadataBody) ''requiredFeatures'' = Some (JArr [JStr ''feature-a''])"
  "bodyField sampleHost (makeRelease t f metadataBody) ''requiredEnvironment'' =
     Some (JObj [(''python'', JObj [(''requires'', JStr ''>=3.10'')])])"
  "bodyField sampleHost (makeRelease t f emptyFieldsBody) ''minimumConnectVersion'' = Some (JStr [])"
  "bodyField sampleHost (makeRelease t f emptyFieldsBody) ''requiredFeatures'' = Some (JArr [])"
  "bodyField sampleHost (makeRelease t f emptyFieldsBody) ''requiredEnvironment'' = None"
  "JSON_parse sampleHost (body (makeRelease t f ''just some release notes'')) = None"
  "bodyField sampleHost (makeRelease t f ''just some release notes'') k = None"
  by (simp_all add: bodyField_def sample_defs)

theorem minimumConnectVersion_body_then_manifest_witness:
  "(\<exists>v. parseExtensionRelease sampleHost (makeRelease ''my-ext@v1.0.0'' ''my-ext.tar.gz'' metadataBody)
          ''my-ext'' fullManifest = Some v \<and>
        m_minimumConnectVersion (extension fullManifest) = ''2024.01.0'' \<and>
        minimumConnectVersion v = JStr ''2025.01.0'') \<and>
   (\<exists>v. parseExtensionRelease sampleHost
          (makeRelease ''my-ext@v1.0.0'' ''my-ext.tar.gz'' ''just some release notes'')
          ''my-ext'' fullManifest = Some v \<and>
        minimumConnectVersion v = JStr ''2024.01.0'') \<and>
   (\<exists>v. parseExtensionRelease sampleHost (makeRelease ''my-ext@v1.0.0'' ''my-ext.tar.gz'' emptyFieldsBody)
          ''my-ext'' (makeManifest ''my-ext'' ''1.0.0'') = Some v \<and>
        minimumConnectVersion v = JStr ''2024.01.0'')"
proof -
  let ?r1 = "makeRelease ''my-ext@v1.0.0'' ''my-ext.tar.gz'' metadataBody"
  let ?r2 = "makeRelease ''my-ext@v1.0.0'' ''my-ext.tar.gz'' ''just some release notes''"
  let ?r3 = "makeRelease ''my-ext@v1.0.0'' ''my-ext.tar.gz'' emptyFieldsBody"
  have m: "m_minimumConnectVersion (extension fullManifest) = ''2024.01.0''"
    "m_minimumConnectVersion (extension (makeManifest ''my-ext'' ''1.0.0'')) = ''2024.01.0''"
    by (simp_all add: fullManifest_def makeManifest_def)
  obtain v1 where v1: "parseExtensionRelease sampleHost ?r1 ''my-ext'' fullManifest = Some v1"
    using sample_release_metadata by simp
  obtain v2 where v2: "parseExtensionRelease sampleHost ?r2 ''my-ext'' fullManifest = Some v2"
    using sample_release_notes by simp
  obtain v3 where v3: "parseExtensionRelease sampleHost ?r3 ''my-ext'' (makeManifest ''my-ext'' ''1.0.0'') = Some v3"
    using sample_release_empty_fields by simp
  from minimumConnectVersion_body_then_manifest [OF v1] sample_bodyField(1)
  have "minimumConnectVersion v1 = JStr ''2025.01.0''" by simp
  moreover from minimumConnectVersion_body_then_manifest [OF v2] sample_bodyField(7) m
  have "minimumConnectVersion v2 = JStr ''2024.01.0''" by simp
  moreover from minimumConnectVersion_body_then_manifest [OF v3] sample_bodyField(4) m
  have "minimumConnectVersion v3 = JStr ''2024.01.0''" by simp
  ultimately show ?thesis using v1 v2 v3 m by simp
qed

text \<open>
  Claim C6: \<^verbatim>\<open>requiredFeatures\<close> is the body's list when the body carries a non-empty
  one, else the manifest's list when that is non-empty, else absent; it is never an
  empty list and never null. \<^verbatim>\<open>requiredEnvironment\<close> is the body's object when the
  body carries one, else the manifest's environment when the manifest has one, else
  absent. For a body value of another type, the source tests the truth value of its
  \<^verbatim>\<open>length\<close> (features) and of the value itself (environment).
\<close>

theorem optional_fields_body_then_manifest:
  assumes "parseExtensionRelease h r n m = Some v"
  shows "(\<forall>xs. bodyField h r ''requiredFeatures'' = Some (JArr xs) \<and> xs \<noteq> [] \<longrightarrow>
            requiredFeatures v = Some (JArr xs)) \<and>
         (bodyField h r ''requiredFeatures'' = None \<or>
          bodyField h r ''requiredFeatures'' = Some (JArr []) \<longrightarrow>
            requiredFeatures v =
              (case m_requiredFeatures (extension m) of
                 None \<Rightarrow> None
               | Some fs \<Rightarrow> if fs \<noteq> [] then Some (JArr (map JStr fs)) else None)) \<and>
         requiredFeatures v \<noteq> Some (JArr []) \<and> requiredFeatures v \<noteq> Some JNull \<and>
         (\<forall>x. bodyField h r ''requiredFeatures'' = Some x \<longrightarrow>
            requiredFeatures v = (if truthyOpt (lengthOf (Some x)) then Some x else manifestFeatures m)) \<and>
         (\<forall>e. bodyField h r ''requiredEnvironment'' = Some (JObj e) \<longrightarrow>
            requiredEnvironment v = Some (JObj e)) \<and>
         (bodyField h r ''requiredEnvironment'' = None \<longrightarrow>
            requiredEnvironment v = map_option envJson (environment m)) \<and>
         requiredEnvironment v \<noteq> Some JNull \<and>
         (\<forall>x. bodyField h r ''requiredEnvironment'' = Some x \<longrightarrow>
            requiredEnvironment v = (if truthy x then Some x else manifestEnvironment m))"
proof -
  note f = parse_Some_fields(2) [OF assms] and e = parse_Some_fields(3) [OF assms]
  have mf: "manifestFeatures m =
      (case m_requiredFeatures (extension m) of
         None \<Rightarrow> None
       | Some fs \<Rightarrow> if fs \<noteq> [] then Some (JArr (map JStr fs)) else None)"
    by (simp add: manifestFeatures_def featuresJson_def split: option.splits)
  have 1: "\<forall>xs. bodyField h r ''requiredFeatures'' = Some (JArr xs) \<and> xs \<noteq> [] \<longrightarrow>
            requiredFeatures v = Some (JArr xs)"
    using f by simp
  have 2: "bodyField h r ''requiredFeatures'' = None \<or>
          bodyField h r ''requiredFeatures'' = Some (JArr []) \<longrightarrow>
            requiredFeatures v =
              (case m_requiredFeatures (extension m) of
                 None \<Rightarrow> None
               | Some fs \<Rightarrow> if fs \<noteq> [] then Some (JArr (map JStr fs)) else None)"
    using f unfolding mf by auto
  have 3: "requiredFeatures v \<noteq> Some (JArr []) \<and> requiredFeatures v \<noteq> Some JNull"
    using f lengthOf_truthy_cases [of "bodyField h r ''requiredFeatures''"]
      manifestFeatures_nonempty [of m]
    by (cases "truthyOpt (lengthOf (bodyField h r ''requiredFeatures''))") simp_all
  have 4: "\<forall>x. bodyField h r ''requiredFeatures'' = Some x \<longrightarrow>
            requiredFeatures v = (if truthyOpt (lengthOf (Some x)) then Some x else manifestFeatures m)"
    using f by simp
  have 5: "\<forall>e. bodyField h r ''requiredEnvironment'' = Some (JObj e) \<longrightarrow>
            requiredEnvironment v = Some (JObj e)"
    using e by simp
  have 6: "bodyField h r ''requiredEnvironment'' = None \<longrightarrow>
            requiredEnvironment v = map_option envJson (environment m)"
    using e by (simp add: manifestEnvironment_def)
  have 7: "requiredEnvironment v \<noteq> Some JNull"
    using e manifestEnvironment_object [of m]
    by (cases "bodyField h r ''requiredEnvironment''") (auto split: if_splits)
  have 8: "\<forall>x. bodyField h r ''requiredEnvironment'' = Some x \<longrightarrow>
            requiredEnvironment v = (if truthy x then Some x else manifestEnvironment m)"
    using e by simp
  from 1 2 3 4 5 6 7 8 show ?thesis by blast
qed

theorem optional_fields_body_then_manifest_witness:
  "(\<exists>v. parseExtensionRelease sampleHost (makeRelease ''my-ext@v1.0.0'' ''my-ext.tar.gz'' metadataBody)
          ''my-ext'' fullManifest = Some v \<and>
        requiredFeatures v = Some (JArr [JStr ''feature-a'']) \<and>
        requiredEnvironment v = Some (JObj [(''python'', JObj [(''requires'', JStr ''>=3.10'')])])) \<and>
   (\<exists>v. parseExtensionRelease sampleHost
          (makeRelease ''my-ext@v1.0.0'' ''my-ext.tar.gz'' ''just some release notes'')
          ''my-ext'' fullManifest = Some v \<and>
        requiredFeatures v = Some (JArr [JStr ''manifest-feature'']) \<and>
        requiredEnvironment v = Some (JObj [(''python'', JObj [(''requires'', JStr ''>=3.9'')])])) \<and>
   (\<exists>v. parseExtensionRelease sampleHost (makeRelease ''my-ext@v1.0.0'' ''my-ext.tar.gz'' emptyFieldsBody)
          ''my-ext'' (makeManifest ''my-ext'' ''1.0.0'') = Some v \<and>
        requiredFeatures v = None \<and> requiredEnvironment v = None)"
proof -
  let ?r1 = "makeRelease ''my-ext@v1.0.0'' ''my-ext.tar.gz'' metadataBody"
  let ?r2 = "makeRelease ''my-ext@v1.0.0'' ''my-ext.tar.gz'' ''just some release notes''"
  let ?r3 = "makeRelease ''my-ext@v1.0.0'' ''my-ext.tar.gz'' emptyFieldsBody"
  have m: "m_requiredFeatures (extension fullManifest) = Some [''manifest-feature'']"
    "map_option envJson (environment fullManifest) =
       Some (JObj [(''python'', JObj [(''requires'', JStr ''>=3.9'')])])"
    "m_requiredFeatures (extension (makeManifest ''my-ext'' ''1.0.0'')) = None"
    "environment (makeManifest ''my-ext'' ''1.0.0'') = None"
    by (simp_all add: fullManifest_def makeManifest_def envJson_def langJson_def)
  obtain v1 where v1: "parseExtensionRelease sampleHost ?r1 ''my-ext'' fullManifest = Some v1"
    using sample_release_metadata by simp
  obtain v2 where v2: "parseExtensionRelease sampleHost ?r2 ''my-ext'' fullManifest = Some v2"
    using sample_release_notes by simp
  obtain v3 where v3: "parseExtensionRelease sampleHost ?r3 ''my-ext'' (makeManifest ''my-ext'' ''1.0.0'') = Some v3"
    using sample_release_empty_fields by simp
  from optional_fields_body_then_manifest [OF v1] sample_bodyField(2,3)
  have "requiredFeatures v1 = Some (JArr [JStr ''feature-a'']) \<and>
        requiredEnvironment v1 = Some (JObj [(''python'', JObj [(''requires'', JStr ''>=3.10'')])])"
    by simp
  moreover from optional_fields_body_then_manifest [OF v2] sample_bodyField(8) m(1,2)
  have "requiredFeatures v2 = Some (JArr [JStr ''manifest-feature'']) \<and>
        requiredEnvironment v2 = Some (JObj [(''python'', JObj [(''requires'', JStr ''>=3.9'')])])"
    by simp
  moreover from optional_fields_body_then_manifest [OF v3] sample_bodyField(5,6) m(3,4)
  have "requiredFeatures v3 = None \<and> requiredEnvironment v3 = None"
    by simp
  ultimately show ?thesis using v1 v2 v3 by simp
qed


lemma no_metadata_getProp:
  assumes "\<not> isObject j \<or> \<not> carriesMetadata j"
  shows "getProp j ''minimumConnectVersion'' = None \<and> getProp j ''requiredFeatures'' = None \<and>
         getProp j ''requiredEnvironment'' = None"
  using assms by (cases j) (auto simp: isObject_def carriesMetadata_def)

text \<open>
  Claim C10: a body that is valid JSON but does not parse to an object carrying one of
  the three metadata fields (null, a number, a string, an array, an object without
  them) gives exactly the result of a body that is not valid JSON; in a result all
  three fields are the manifest's.
\<close>

theorem non_metadata_body_as_invalid_json:
  assumes "JSON_parse h b1 = Some j" and "\<not> isObject j \<or> \<not> carriesMetadata j"
    and "JSON_parse h b2 = None"
  shows "parseExtensionRelease h (r\<lparr>body := b1\<rparr>) n m =
           parseExtensionRelease h (r\<lparr>body := b2\<rparr>) n m \<and>
         (\<forall>v. parseExtensionRelease h (r\<lparr>body := b1\<rparr>) n m = Some v \<longrightarrow>
            minimumConnectVersion v = JStr (m_minimumConnectVersion (extension m)) \<and>
            requiredFeatures v = manifestFeatures m \<and>
            requiredEnvironment v = manifestEnvironment m)"
proof -
  note none = no_metadata_getProp [OF assms(2)]
  have f1: "bodyField h (r\<lparr>body := b1\<rparr>) k = getProp j k" for k
    using assms(1) by (simp add: bodyField_def)
  have m1: "parseMetadata h (body (r\<lparr>body := b1\<rparr>)) = j"
    and m2: "parseMetadata h (body (r\<lparr>body := b2\<rparr>)) = JNull"
    using assms(1,3) by (simp_all add: parseMetadata_def)
  have "parseExtensionRelease h (r\<lparr>body := b1\<rparr>) n m =
          parseExtensionRelease h (r\<lparr>body := b2\<rparr>) n m"
    unfolding parseExtensionRelease_def m1 m2 using none
    by (simp add: Let_def split: option.splits)
  moreover have "minimumConnectVersion v = JStr (m_minimumConnectVersion (extension m)) \<and>
      requiredFeatures v = manifestFeatures m \<and> requiredEnvironment v = manifestEnvironment m"
    if "parseExtensionRelease h (r\<lparr>body := b1\<rparr>) n m = Some v" for v
    using parse_Some_fields [OF that] none by (simp add: f1)
  ultimately show ?thesis by blast
qed

lemma makeRelease_body: "(makeRelease t f b)\<lparr>body := b'\<rparr> = makeRelease t f b'"
  by (simp add: makeRelease_def)

theorem non_metadata_body_as_invalid_json_witness:
  \<open>parseExtensionRelease sampleHost (makeRelease ''my-ext@v1.0.0'' ''my-ext.tar.gz'' ''null'')
     ''my-ext'' fullManifest =
   parseExtensionRelease sampleHost
     (makeRelease ''my-ext@v1.0.0'' ''my-ext.tar.gz'' ''just some release notes'') ''my-ext'' fullManifest \<and>
   parseExtensionRelease sampleHost (makeRelease ''my-ext@v1.0.0'' ''my-ext.tar.gz'' ''42'')
     ''my-ext'' fullManifest =
   parseExtensionRelease sampleHost
     (makeRelease ''my-ext@v1.0.0'' ''my-ext.tar.gz'' ''just some release notes'') ''my-ext'' fullManifest \<and>
   parseExtensionRelease sampleHost (makeRelease ''my-ext@v1.0.0'' ''my-ext.tar.gz'' ''["a"]'')
     ''my-ext'' fullManifest =
   parseExtensionRelease sampleHost
     (makeRelease ''my-ext@v1.0.0'' ''my-ext.tar.gz'' ''just some release notes'') ''my-ext'' fullManifest \<and>
   (\<exists>v. parseExtensionRelease sampleHost (makeRelease ''my-ext@v1.0.0'' ''my-ext.tar.gz'' ''"notes"'')
          ''my-ext'' fullManifest = Some v \<and>
        minimumConnectVersion v = JStr ''2024.01.0'' \<and>
        requiredFeatures v = Some (JArr [JStr ''manifest-feature'']) \<and>
        requiredEnvironment v = Some (JObj [(''python'', JObj [(''requires'', JStr ''>=3.9'')])]))\<close>
proof -
  let ?r = "makeRelease ''my-ext@v1.0.0'' ''my-ext.tar.gz'' []"
  have bad: "JSON_parse sampleHost ''just some release notes'' = None"
    by (simp add: sample_defs)
  have p: "JSON_parse sampleHost ''null'' = Some JNull"
    "JSON_parse sampleHost ''42'' = Some (JNum 42)"
    \<open>JSON_parse sampleHost ''["a"]'' = Some (JArr [JStr ''a''])\<close>
    \<open>JSON_parse sampleHost ''"notes"'' = Some (JStr ''notes'')\<close>
    by (simp_all add: sample_defs)
  have o: "\<not> isObject JNull \<or> \<not> carriesMetadata JNull"
    "\<not> isObject (JNum 42) \<or> \<not> carriesMetadata (JNum 42)"
    "\<not> isObject (JArr [JStr ''a'']) \<or> \<not> carriesMetadata (JArr [JStr ''a''])"
    "\<not> isObject (JStr ''notes'') \<or> \<not> carriesMetadata (JStr ''notes'')"
    by (simp_all add: isObject_def)
  note a = non_metadata_body_as_invalid_json [OF p(1) o(1) bad, of ?r "''my-ext''" fullManifest,
      unfolded makeRelease_body]
  note b = non_metadata_body_as_invalid_json [OF p(2) o(2) bad, of ?r "''my-ext''" fullManifest,
      unfolded makeRelease_body]
  note c = non_metadata_body_as_invalid_json [OF p(3) o(3) bad, of ?r "''my-ext''" fullManifest,
      unfolded makeRelease_body]
  note d = non_metadata_body_as_invalid_json [OF p(4) o(4) bad, of ?r "''my-ext''" fullManifest,
      unfolded makeRelease_body]
  have mf: "manifestFeatures fullManifest = Some (JArr [JStr ''manifest-feature''])"
    "manifestEnvironment fullManifest = Some (JObj [(''python'', JObj [(''requires'', JStr ''>=3.9'')])])"
    "m_minimumConnectVersion (extension fullManifest) = ''2024.01.0''"
    by (simp_all add: manifestFeatures_def manifestEnvironment_def fullManifest_def makeManifest_def
        featuresJson_def envJson_def langJson_def)
  from d have eq: \<open>parseExtensionRelease sampleHost
      (makeRelease ''my-ext@v1.0.0'' ''my-ext.tar.gz'' ''"notes"'') ''my-ext'' fullManifest =
    parseExtensionRelease sampleHost
      (makeRelease ''my-ext@v1.0.0'' ''my-ext.tar.gz'' ''just some release notes'') ''my-ext'' fullManifest\<close>
    by (rule conjunct1)
  then obtain v where v: \<open>parseExtensionRelease sampleHost
      (makeRelease ''my-ext@v1.0.0'' ''my-ext.tar.gz'' ''"notes"'') ''my-ext'' fullManifest = Some v\<close>
    unfolding sample_release_notes by blast
  from d [THEN conjunct2, rule_format, OF v]
  have "minimumConnectVersion v = JStr ''2024.01.0'' \<and>
      requiredFeatures v = Some (JArr [JStr ''manifest-feature'']) \<and>
      requiredEnvironment v = Some (JObj [(''python'', JObj [(''requires'', JStr ''>=3.9'')])])"
    unfolding mf .
  with v have \<open>\<exists>v. parseExtensionRelease sampleHost
        (makeRelease ''my-ext@v1.0.0'' ''my-ext.tar.gz'' ''"notes"'') ''my-ext'' fullManifest = Some v \<and>
      minimumConnectVersion v = JStr ''2024.01.0'' \<and>
      requiredFeatures v = Some (JArr [JStr ''manifest-feature'']) \<and>
      requiredEnvironment v = Some (JObj [(''python'', JObj [(''requires'', JStr ''>=3.9'')])])\<close>
    by blast
  with a b c show ?thesis by blast
qed

section \<open>\<^verbatim>\<open>Array.prototype.sort\<close> with a comparator\<close>

text \<open>
  The sort is stable. For a consistent comparator (one that orders the elements as a
  total preorder) the language fixes the result: the stable sorted arrangement of the
  array, whatever algorithm the engine runs (\<open>sortWith_unique\<close> below). It is
  modelled by a stable insertion sort, and the theorems about sorted output assume the
  comparator consistent on the values sorted.
\<close>

fun insertSorted :: "('a \<Rightarrow> 'a \<Rightarrow> int) \<Rightarrow> 'a \<Rightarrow> 'a list \<Rightarrow> 'a list" where
  "insertSorted cmp x [] = [x]"
| "insertSorted cmp x (y # ys) =
     (if cmp x y \<le> 0 then x # y # ys else y # insertSorted cmp x ys)"

definition sortWith :: "('a \<Rightarrow> 'a \<Rightarrow> int) \<Rightarrow> 'a list \<Rightarrow> 'a list" where
  "sortWith cmp xs = foldr (insertSorted cmp) xs []"

definition consistent :: "'a set \<Rightarrow> ('a \<Rightarrow> 'a \<Rightarrow> int) \<Rightarrow> bool" where
  "consistent A cmp \<longleftrightarrow>
     (\<forall>a\<in>A. \<forall>b\<in>A. (cmp a b < 0 \<longleftrightarrow> 0 < cmp b a)) \<and>
     (\<forall>a\<in>A. \<forall>b\<in>A. \<forall>c\<in>A. cmp a b \<le> 0 \<and> cmp b c \<le> 0 \<longrightarrow> cmp a c \<le> 0)"

lemma sortWith_Nil [simp]: "sortWith cmp [] = []"
  by (simp add: sortWith_def)

lemma sortWith_Cons: "sortWith cmp (x # xs) = insertSorted cmp x (sortWith cmp xs)"
  by (simp add: sortWith_def)

lemma mset_insertSorted: "mset (insertSorted cmp x ys) = add_mset x (mset ys)"
  by (induction ys) auto

lemma mset_sortWith: "mset (sortWith cmp xs) = mset xs"
  by (induction xs) (auto simp: sortWith_Cons mset_insertSorted)

lemma set_sortWith: "set (sortWith cmp xs) = set xs"
  using mset_sortWith [of cmp xs] by (metis set_mset_mset)

lemma length_sortWith: "length (sortWith cmp xs) = length xs"
  using mset_sortWith [of cmp xs] by (metis size_mset)

lemma sortWith_eq_Nil: "sortWith cmp xs = [] \<longleftrightarrow> xs = []"
  using length_sortWith [of cmp xs] by auto

lemma consistentD:
  assumes "consistent A cmp"
  shows "a \<in> A \<Longrightarrow> b \<in> A \<Longrightarrow> 0 < cmp a b \<Longrightarrow> cmp b a < 0"
    and "a \<in> A \<Longrightarrow> b \<in> A \<Longrightarrow> c \<in> A \<Longrightarrow> cmp a b \<le> 0 \<Longrightarrow> cmp b c \<le> 0 \<Longrightarrow> cmp a c \<le> 0"
    and "a \<in> A \<Longrightarrow> b \<in> A \<Longrightarrow> cmp a b = 0 \<Longrightarrow> cmp b a = 0"
proof -
  from assms have anti: "\<And>a b. a \<in> A \<Longrightarrow> b \<in> A \<Longrightarrow> (cmp a b < 0 \<longleftrightarrow> 0 < cmp b a)"
    and trans: "\<And>a b c. a \<in> A \<Longrightarrow> b \<in> A \<Longrightarrow> c \<in> A \<Longrightarrow> cmp a b \<le> 0 \<Longrightarrow> cmp b c \<le> 0 \<Longrightarrow> cmp a c \<le> 0"
    unfolding consistent_def by blast+
  show "a \<in> A \<Longrightarrow> b \<in> A \<Longrightarrow> 0 < cmp a b \<Longrightarrow> cmp b a < 0"
    using anti [of b a] by simp
  show "a \<in> A \<Longrightarrow> b \<in> A \<Longrightarrow> c \<in> A \<Longrightarrow> cmp a b \<le> 0 \<Longrightarrow> cmp b c \<le> 0 \<Longrightarrow> cmp a c \<le> 0"
    by (rule trans)
  show "a \<in> A \<Longrightarrow> b \<in> A \<Longrightarrow> cmp a b = 0 \<Longrightarrow> cmp b a = 0"
    using anti [of a b] anti [of b a] by (cases "cmp b a" "0::int" rule: linorder_cases) simp_all
qed

lemma sorted_insertSorted:
  assumes "consistent A cmp" and "x \<in> A" and "set ys \<subseteq> A"
    and "sorted_wrt (\<lambda>a b. cmp a b \<le> 0) ys"
  shows "sorted_wrt (\<lambda>a b. cmp a b \<le> 0) (insertSorted cmp x ys)"
  using assms(3,4)
proof (induction ys)
  case Nil
  then show ?case by simp
next
  case (Cons y ys)
  show ?case
  proof (cases "cmp x y \<le> 0")
    case True
    have "cmp x z \<le> 0" if "z \<in> set ys" for z
    proof -
      from Cons.prems that have "cmp y z \<le> 0" and "z \<in> A" and "y \<in> A" by auto
      with consistentD(2) [OF assms(1), of x y z] assms(2) True show ?thesis by simp
    qed
    with True Cons.prems show ?thesis by simp
  next
    case False
    with consistentD(1) [OF assms(1), of x y] assms(2) Cons.prems have "cmp y x \<le> 0"
      by simp
    moreover from Cons have "sorted_wrt (\<lambda>a b. cmp a b \<le> 0) (insertSorted cmp x ys)"
      by simp
    moreover have "set (insertSorted cmp x ys) = insert x (set ys)"
      using mset_insertSorted [of cmp x ys] by (metis set_mset_add_mset_insert set_mset_mset)
    ultimately show ?thesis using False Cons.prems by simp
  qed
qed

lemma sorted_sortWith:
  assumes "consistent A cmp" and "set xs \<subseteq> A"
  shows "sorted_wrt (\<lambda>a b. cmp a b \<le> 0) (sortWith cmp xs)"
  using assms(2)
proof (induction xs)
  case Nil
  then show ?case by simp
next
  case (Cons x xs)
  then have "sorted_wrt (\<lambda>a b. cmp a b \<le> 0) (sortWith cmp xs)" by simp
  with sorted_insertSorted [OF assms(1), of x "sortWith cmp xs"] Cons.prems
  show ?case by (simp add: sortWith_Cons set_sortWith)
qed

text \<open>Stability: elements the comparator calls equal keep the order of the input.\<close>

lemma filter_insertSorted:
  assumes "consistent A cmp" and "k \<in> A" and "x \<in> A" and "set ys \<subseteq> A"
  shows "filter (\<lambda>y. cmp k y = 0) (insertSorted cmp x ys) =
         filter (\<lambda>y. cmp k y = 0) (x # ys)"
  using assms(4)
proof (induction ys)
  case Nil
  then show ?case by simp
next
  case (Cons y ys)
  show ?case
  proof (cases "cmp x y \<le> 0")
    case True
    then show ?thesis by simp
  next
    case False
    have "\<not> (cmp k x = 0 \<and> cmp k y = 0)"
    proof
      assume eq: "cmp k x = 0 \<and> cmp k y = 0"
      with consistentD(3) [OF assms(1), of k x] assms(2,3) have "cmp x k \<le> 0" by simp
      with consistentD(2) [OF assms(1), of x k y] eq assms(2,3) Cons.prems have "cmp x y \<le> 0"
        by simp
      with False show False by simp
    qed
    with False Cons show ?thesis by auto
  qed
qed

lemma stable_sortWith:
  assumes "consistent A cmp" and "k \<in> A" and "set xs \<subseteq> A"
  shows "filter (\<lambda>y. cmp k y = 0) (sortWith cmp xs) = filter (\<lambda>y. cmp k y = 0) xs"
  using assms(3)
proof (induction xs)
  case Nil
  then show ?case by simp
next
  case (Cons x xs)
  with filter_insertSorted [OF assms(1,2), of x "sortWith cmp xs"]
  show ?case by (simp add: sortWith_Cons set_sortWith)
qed

lemma consistent_refl:
  assumes "consistent A cmp" and "a \<in> A"
  shows "cmp a a = 0"
proof -
  from assms have "cmp a a < 0 \<longleftrightarrow> 0 < cmp a a"
    unfolding consistent_def by blast
  then show ?thesis by arith
qed

lemma stable_sorted_unique:
  assumes "consistent A cmp" and "set ys \<subseteq> A"
    and "mset ys = mset zs"
    and "sorted_wrt (\<lambda>a b. cmp a b \<le> 0) ys" and "sorted_wrt (\<lambda>a b. cmp a b \<le> 0) zs"
    and "\<forall>k\<in>A. filter (\<lambda>y. cmp k y = 0) ys = filter (\<lambda>y. cmp k y = 0) zs"
  shows "ys = zs"
  using assms(2-)
proof (induction ys arbitrary: zs)
  case Nil
  then show ?case by simp
next
  case (Cons y ys)
  from Cons.prems(2) obtain z zs' where zs: "zs = z # zs'"
    by (cases zs) auto
  from Cons.prems(1) have yA: "y \<in> A" and ysA: "set ys \<subseteq> A" by simp_all
  from Cons.prems(2) have "set (y # ys) = set zs" by (metis set_mset_mset)
  with zs have zin: "z \<in> set (y # ys)" and yin: "y \<in> set (z # zs')" by auto
  from zin Cons.prems(1) have zA: "z \<in> A" by auto
  have yy: "cmp y y = 0" by (rule consistent_refl [OF assms(1) yA])
  have "cmp y z \<le> 0"
    using zin Cons.prems(3) yy by auto
  moreover have "cmp z y \<le> 0"
    using yin Cons.prems(4) consistent_refl [OF assms(1) zA] unfolding zs by auto
  moreover have "cmp y z < 0 \<longleftrightarrow> 0 < cmp z y"
    using assms(1) yA zA unfolding consistent_def by blast
  ultimately have yz: "cmp y z = 0"
    by arith
  from Cons.prems(5) yA have "filter (\<lambda>x. cmp y x = 0) (y # ys) = filter (\<lambda>x. cmp y x = 0) (z # zs')"
    unfolding zs by blast
  with yy yz have eq: "y = z" by simp
  have "ys = zs'"
  proof (rule Cons.IH [OF ysA])
    show "mset ys = mset zs'" using Cons.prems(2) by (simp add: zs eq)
    show "sorted_wrt (\<lambda>a b. cmp a b \<le> 0) ys" using Cons.prems(3) by simp
    show "sorted_wrt (\<lambda>a b. cmp a b \<le> 0) zs'" using Cons.prems(4) by (simp add: zs)
    show "\<forall>k\<in>A. filter (\<lambda>y. cmp k y = 0) ys = filter (\<lambda>y. cmp k y = 0) zs'"
    proof
      fix k assume "k \<in> A"
      with Cons.prems(5) have "filter (\<lambda>x. cmp k x = 0) (y # ys) = filter (\<lambda>x. cmp k x = 0) (y # zs')"
        unfolding zs eq by blast
      then show "filter (\<lambda>y. cmp k y = 0) ys = filter (\<lambda>y. cmp k y = 0) zs'"
        by (cases "cmp k y = 0") simp_all
    qed
  qed
  with eq zs show ?case by simp
qed

text \<open>
  Any rearrangement of the input that is sorted and stable is the list \<open>sortWith\<close>
  returns, so the model does not depend on the sorting algorithm of the engine.
\<close>

lemma sortWith_unique:
  assumes "consistent A cmp" and "set xs \<subseteq> A"
    and "mset ys = mset xs"
    and "sorted_wrt (\<lambda>a b. cmp a b \<le> 0) ys"
    and "\<forall>k\<in>A. filter (\<lambda>y. cmp k y = 0) ys = filter (\<lambda>y. cmp k y = 0) xs"
  shows "ys = sortWith cmp xs"
proof (rule stable_sorted_unique [OF assms(1)])
  show "set ys \<subseteq> A" using assms(2,3) by (metis set_mset_mset)
  show "mset ys = mset (sortWith cmp xs)" by (simp add: assms(3) mset_sortWith)
  show "sorted_wrt (\<lambda>a b. cmp a b \<le> 0) ys" by (rule assms(4))
  show "sorted_wrt (\<lambda>a b. cmp a b \<le> 0) (sortWith cmp xs)"
    by (rule sorted_sortWith [OF assms(1,2)])
  show "\<forall>k\<in>A. filter (\<lambda>y. cmp k y = 0) ys = filter (\<lambda>y. cmp k y = 0) (sortWith cmp xs)"
    using assms(5) stable_sortWith [OF assms(1) _ assms(2)] by simp
qed

text \<open>A comparator through a key, as in \<^verbatim>\<open>(a, b) => cmp(a.version, b.version)\<close>.\<close>

lemma consistent_key:
  assumes "consistent A cmp"
  shows "consistent {x. f x \<in> A} (\<lambda>a b. cmp (f a) (f b))"
  using assms unfolding consistent_def by blast

lemma consistentI:
  assumes "\<And>a b. a \<in> A \<Longrightarrow> b \<in> A \<Longrightarrow> (cmp a b < 0 \<longleftrightarrow> 0 < cmp b a)"
    and "\<And>a b c. a \<in> A \<Longrightarrow> b \<in> A \<Longrightarrow> c \<in> A \<Longrightarrow> cmp a b \<le> 0 \<Longrightarrow> cmp b c \<le> 0 \<Longrightarrow> cmp a c \<le> 0"
  shows "consistent A cmp"
  unfolding consistent_def using assms by blast

lemma consistent_anti:
  assumes "consistent A cmp" and "a \<in> A" and "b \<in> A"
  shows "cmp a b < 0 \<longleftrightarrow> 0 < cmp b a"
  using assms unfolding consistent_def by blast

lemma consistent_less_le:
  assumes "consistent A cmp" and "a \<in> A" and "b \<in> A" and "c \<in> A"
    and "cmp a b < 0" and "cmp b c \<le> 0"
  shows "cmp a c < 0"
proof (rule ccontr)
  assume "\<not> cmp a c < 0"
  with consistent_anti [OF assms(1,2,4)] have "cmp c a \<le> 0" by arith
  with consistentD(2) [OF assms(1,3,4,2)] assms(6) have "cmp b a \<le> 0" by simp
  with consistent_anti [OF assms(1,2,3)] assms(5) show False by arith
qed

lemma consistent_le_less:
  assumes "consistent A cmp" and "a \<in> A" and "b \<in> A" and "c \<in> A"
    and "cmp a b \<le> 0" and "cmp b c < 0"
  shows "cmp a c < 0"
proof (rule ccontr)
  assume "\<not> cmp a c < 0"
  with consistent_anti [OF assms(1,2,4)] have "cmp c a \<le> 0" by arith
  with consistentD(2) [OF assms(1,4,2,3)] assms(5) have "cmp c b \<le> 0" by simp
  with consistent_anti [OF assms(1,3,4)] assms(6) show False by arith
qed

lemma consistent_eq_trans:
  assumes "consistent A cmp" and "a \<in> A" and "b \<in> A" and "c \<in> A"
    and "cmp a b = 0" and "cmp b c = 0"
  shows "cmp a c = 0"
proof -
  from consistentD(2) [OF assms(1,2,3,4)] assms(5,6) have "cmp a c \<le> 0" by simp
  moreover from consistentD(3) [OF assms(1,2,3)] consistentD(3) [OF assms(1,3,4)] assms(5,6)
  have "cmp b a = 0" and "cmp c b = 0" by simp_all
  with consistentD(2) [OF assms(1,4,3,2)] have "cmp c a \<le> 0" by simp
  ultimately show ?thesis using consistent_anti [OF assms(1,2,4)] by arith
qed

text \<open>Two consistent comparisons chained by \<^verbatim>\<open>||\<close> are consistent.\<close>

lemma consistent_orElse:
  assumes c1: "consistent A c1" and c2: "consistent A c2"
  shows "consistent A (\<lambda>a b. orElse (c1 a b) (c2 a b))"
proof (rule consistentI)
  fix a b assume ab: "a \<in> A" "b \<in> A"
  from consistent_anti [OF c1 ab] consistent_anti [OF c1 ab(2,1)] consistent_anti [OF c2 ab]
  show "orElse (c1 a b) (c2 a b) < 0 \<longleftrightarrow> 0 < orElse (c1 b a) (c2 b a)"
    unfolding orElse_def by (auto split: if_splits)
next
  fix a b c assume abc: "a \<in> A" "b \<in> A" "c \<in> A"
    and le: "orElse (c1 a b) (c2 a b) \<le> 0" "orElse (c1 b c) (c2 b c) \<le> 0"
  from le(1) consider "c1 a b < 0" | "c1 a b = 0" "c2 a b \<le> 0"
    unfolding orElse_def by (auto split: if_splits)
  then show "orElse (c1 a c) (c2 a c) \<le> 0"
  proof cases
    case 1
    from le(2) have "c1 b c \<le> 0" unfolding orElse_def by (auto split: if_splits)
    with consistent_less_le [OF c1 abc 1] show ?thesis by (simp add: orElse_def)
  next
    case 2
    from le(2) consider "c1 b c < 0" | "c1 b c = 0" "c2 b c \<le> 0"
      unfolding orElse_def by (auto split: if_splits)
    then show ?thesis
    proof cases
      case 1
      with consistent_le_less [OF c1 abc] 2(1) show ?thesis by (simp add: orElse_def)
    next
      case 2
      note bc = this
      from consistent_eq_trans [OF c1 abc \<open>c1 a b = 0\<close> bc(1)] have "c1 a c = 0" .
      moreover from consistentD(2) [OF c2 abc \<open>c2 a b \<le> 0\<close> bc(2)] have "c2 a c \<le> 0" .
      ultimately show ?thesis by (simp add: orElse_def)
    qed
  qed
qed

section \<open>\<^verbatim>\<open>buildExtensions\<close>\<close>

text \<open>
  A \<^verbatim>\<open>Map<string, ExtensionManifest>\<close> is iterated in insertion order: the list of its
  entries. Lines 75 to 78: parse every release, drop the nulls, sort.
\<close>

definition extensionReleases ::
  "host \<Rightarrow> ExtensionManifest \<Rightarrow> GitHubRelease list \<Rightarrow> ExtensionVersion list" where
  "extensionReleases h manifest releases =
     sortWith (\<lambda>a b. semverRcompare h (version a) (version b))
       (map the
         (filter (\<lambda>v. v \<noteq> None)
           (map (\<lambda>r. parseExtensionRelease h r (m_name (extension manifest)) manifest) releases)))"

text \<open>The object pushed at lines 82 to 93, for a non-empty sorted list of versions.\<close>

definition toExtension ::
  "ExtensionManifest \<Rightarrow> ExtensionVersion \<Rightarrow> ExtensionVersion list \<Rightarrow> Extension" where
  "toExtension manifest latest sorted_versions = \<lparr>
     name = m_name (extension manifest),
     title = m_title (extension manifest),
     description = m_description (extension manifest),
     homepage = m_homepage (extension manifest),
     latestVersion = latest,
     versions = sorted_versions,
     tags = (case m_tags (extension manifest) of None \<Rightarrow> [] | Some ts \<Rightarrow> ts),
     category =
       (case m_category (extension manifest) of
          None \<Rightarrow> None
        | Some c \<Rightarrow> if c \<noteq> [] then Some c else None) \<rparr>"

text \<open>The loop of lines 69 to 94; \<^verbatim>\<open>continue\<close> goes on with the rest of the map.\<close>

fun pushExtensions ::
  "host \<Rightarrow> (string \<times> ExtensionManifest) list \<Rightarrow> GitHubRelease list \<Rightarrow> Extension list" where
  "pushExtensions h [] releases = []"
| "pushExtensions h ((key, manifest) # rest) releases =
     (if m_version (extension manifest) = ''0.0.0'' then pushExtensions h rest releases
      else case extensionReleases h manifest releases of
             [] \<Rightarrow> pushExtensions h rest releases
           | latest # others \<Rightarrow>
               toExtension manifest latest (latest # others) # pushExtensions h rest releases)"

definition buildExtensions ::
  "host \<Rightarrow> (string \<times> ExtensionManifest) list \<Rightarrow> GitHubRelease list \<Rightarrow> Extension list" where
  "buildExtensions h manifests releases =
     sortWith (\<lambda>a b. localeCompare h (name a) (name b)) (pushExtensions h manifests releases)"

text \<open>
  The non-rejected versions of a manifest, in the order of the releases, and the
  manifests that have one and are released.
\<close>

definition keptVersions ::
  "host \<Rightarrow> ExtensionManifest \<Rightarrow> GitHubRelease list \<Rightarrow> ExtensionVersion list" where
  "keptVersions h m rs = List.map_filter (\<lambda>r. parseExtensionRelease h r (m_name (extension m)) m) rs"

definition eligible :: "host \<Rightarrow> GitHubRelease list \<Rightarrow> ExtensionManifest \<Rightarrow> bool" where
  "eligible h rs m \<longleftrightarrow> m_version (extension m) \<noteq> ''0.0.0'' \<and> keptVersions h m rs \<noteq> []"

lemma map_the_filter: "map the (filter (\<lambda>v. v \<noteq> None) (map f xs)) = List.map_filter f xs"
  by (induction xs) (auto simp: List.map_filter_simps split: option.splits)

lemma extensionReleases_sortWith:
  "extensionReleases h m rs =
     sortWith (\<lambda>a b. semverRcompare h (version a) (version b)) (keptVersions h m rs)"
  unfolding extensionReleases_def keptVersions_def map_the_filter ..

lemma extensionReleases_Nil: "extensionReleases h m rs = [] \<longleftrightarrow> keptVersions h m rs = []"
  by (simp add: extensionReleases_sortWith sortWith_eq_Nil)

lemma set_keptVersions:
  "set (keptVersions h m rs) =
     {v. \<exists>r\<in>set rs. parseExtensionRelease h r (m_name (extension m)) m = Some v}"
  by (induction rs) (auto simp: keptVersions_def List.map_filter_simps split: option.splits)

lemma keptVersions_valid:
  assumes "v \<in> set (keptVersions h m rs)"
  shows "semverValid h (version v)"
proof -
  from assms obtain r where "parseExtensionRelease h r (m_name (extension m)) m = Some v"
    by (auto simp: set_keptVersions)
  then show ?thesis
    by (auto simp: parseExtensionRelease_def Let_def split: if_splits option.splits)
qed

text \<open>What the loop pushes: one extension for every eligible manifest, in map order.\<close>

definition extensionFor :: "host \<Rightarrow> GitHubRelease list \<Rightarrow> ExtensionManifest \<Rightarrow> Extension" where
  "extensionFor h rs m =
     toExtension m (hd (extensionReleases h m rs)) (extensionReleases h m rs)"

lemma pushExtensions_eligible:
  "pushExtensions h ms rs = map (extensionFor h rs) (filter (eligible h rs) (map snd ms))"
proof (induction ms)
  case Nil
  then show ?case by simp
next
  case (Cons km ms)
  note IH = Cons.IH
  obtain k m where km: "km = (k, m)" by (cases km)
  show ?case
  proof (cases "extensionReleases h m rs")
    case Nil
    then have "keptVersions h m rs = []"
      using extensionReleases_Nil [of h m rs] by simp
    with Nil IH km show ?thesis
      by (simp add: eligible_def)
  next
    case (Cons v vs)
    then have "keptVersions h m rs \<noteq> []"
      using extensionReleases_Nil [of h m rs] by simp
    with Cons IH km show ?thesis
      by (simp add: eligible_def extensionFor_def)
  qed
qed

lemma set_buildExtensions:
  "set (buildExtensions h ms rs) = extensionFor h rs ` {m \<in> snd ` set ms. eligible h rs m}"
  by (auto simp: buildExtensions_def set_sortWith pushExtensions_eligible)

lemma extensionFor_fields:
  "name (extensionFor h rs m) = m_name (extension m)"
  "versions (extensionFor h rs m) = extensionReleases h m rs"
  "latestVersion (extensionFor h rs m) = hd (extensionReleases h m rs)"
  by (simp_all add: extensionFor_def toExtension_def)

lemma nth_opt_hd: "xs \<noteq> [] \<Longrightarrow> nth_opt xs 0 = Some (hd xs)"
  by (cases xs) simp_all

text \<open>
  Claim C3: an extension whose manifest declares version \<^verbatim>\<open>0.0.0\<close> is never emitted,
  whatever the releases, and neither is one without a non-rejected release: every
  emitted extension comes from a manifest with another version and has a non-empty
  versions list, and the output has exactly one extension per such manifest.
\<close>

theorem buildExtensions_released_only:
  "(\<forall>e\<in>set (buildExtensions h ms rs).
      versions e \<noteq> [] \<and>
      (\<exists>m\<in>snd ` set ms.
         m_version (extension m) \<noteq> ''0.0.0'' \<and>
         name e = m_name (extension m) \<and>
         set (versions e) =
           {v. \<exists>r\<in>set rs. parseExtensionRelease h r (m_name (extension m)) m = Some v})) \<and>
   length (buildExtensions h ms rs) =
     length (filter (\<lambda>m. m_version (extension m) \<noteq> ''0.0.0'' \<and>
                          (\<exists>r\<in>set rs. parseExtensionRelease h r (m_name (extension m)) m \<noteq> None))
               (map snd ms)) \<and>
   ((\<forall>m\<in>snd ` set ms. m_version (extension m) = ''0.0.0'') \<longrightarrow> buildExtensions h ms rs = [])"
proof -
  have el: "eligible h rs m \<longleftrightarrow>
      m_version (extension m) \<noteq> ''0.0.0'' \<and>
      (\<exists>r\<in>set rs. parseExtensionRelease h r (m_name (extension m)) m \<noteq> None)" for m
  proof -
    have "keptVersions h m rs \<noteq> [] \<longleftrightarrow> set (keptVersions h m rs) \<noteq> {}" by simp
    also have "\<dots> \<longleftrightarrow> (\<exists>r\<in>set rs. parseExtensionRelease h r (m_name (extension m)) m \<noteq> None)"
      unfolding set_keptVersions by auto
    finally show ?thesis by (simp add: eligible_def)
  qed
  have 1: "versions e \<noteq> [] \<and>
      (\<exists>m\<in>snd ` set ms.
         m_version (extension m) \<noteq> ''0.0.0'' \<and>
         name e = m_name (extension m) \<and>
         set (versions e) =
           {v. \<exists>r\<in>set rs. parseExtensionRelease h r (m_name (extension m)) m = Some v})"
    if "e \<in> set (buildExtensions h ms rs)" for e
  proof -
    from that obtain m where m: "m \<in> snd ` set ms" "eligible h rs m" "e = extensionFor h rs m"
      unfolding set_buildExtensions by blast
    from m(2) have "extensionReleases h m rs \<noteq> []"
      by (simp add: eligible_def extensionReleases_Nil)
    moreover have "set (extensionReleases h m rs) = set (keptVersions h m rs)"
      by (simp add: extensionReleases_sortWith set_sortWith)
    ultimately show ?thesis
      using m by (auto simp: extensionFor_fields set_keptVersions eligible_def)
  qed
  have 2: "length (buildExtensions h ms rs) = length (filter (eligible h rs) (map snd ms))"
    by (simp add: buildExtensions_def length_sortWith pushExtensions_eligible)
  have 3: "buildExtensions h ms rs = []" if "\<forall>m\<in>snd ` set ms. m_version (extension m) = ''0.0.0''"
  proof -
    from that have "filter (eligible h rs) (map snd ms) = []"
      by (auto simp: filter_empty_conv eligible_def)
    with 2 show ?thesis by simp
  qed
  from 1 2 3 show ?thesis unfolding el by blast
qed

lemma consistent_sortCompare: "consistent UNIV sortCompare"
  unfolding consistent_def sortCompare_def by auto

subsection \<open>The sample comparators are consistent\<close>

lemma consistent_compareNumbers: "consistent UNIV compareNumbers"
  by (rule consistentI) (auto simp: compareNumbers_def split: if_splits)

lemma consistent_compareIdentifiers: "consistent UNIV compareIdentifiers"
proof (rule consistentI)
  fix a b :: ident
  show "compareIdentifiers a b < 0 \<longleftrightarrow> 0 < compareIdentifiers b a"
    by (cases a; cases b) (auto simp: compareNumbers_def)
next
  fix a b c :: ident
  assume "compareIdentifiers a b \<le> 0" "compareIdentifiers b c \<le> 0"
  then show "compareIdentifiers a c \<le> 0"
    by (cases a; cases b; cases c) (auto simp: compareNumbers_def split: if_splits)
qed

lemma compareLists_anti: "compareLists a b < 0 \<longleftrightarrow> 0 < compareLists b a"
proof (induction a b rule: compareLists.induct)
  case (4 a as b bs)
  from consistent_anti [OF consistent_compareIdentifiers, of a b]
    consistent_anti [OF consistent_compareIdentifiers, of b a] 4
  show ?case unfolding compareLists.simps orElse_def by (auto split: if_splits)
qed simp_all

lemma compareLists_trans:
  "compareLists a b \<le> 0 \<Longrightarrow> compareLists b c \<le> 0 \<Longrightarrow> compareLists a c \<le> 0"
proof (induction a arbitrary: b c)
  case Nil
  then show ?case by (cases c) simp_all
next
  case (Cons x xs)
  from Cons.prems(1) obtain y ys where b: "b = y # ys" by (cases b) auto
  from Cons.prems(2) obtain z zs where c: "c = z # zs" unfolding b by (cases c) auto
  note ci = consistent_compareIdentifiers
  from Cons.prems(1) consider "compareIdentifiers x y < 0"
    | "compareIdentifiers x y = 0" "compareLists xs ys \<le> 0"
    unfolding b by (auto simp: orElse_def split: if_splits)
  then show ?case
  proof cases
    case 1
    from Cons.prems(2) have "compareIdentifiers y z \<le> 0"
      unfolding b c by (auto simp: orElse_def split: if_splits)
    with consistent_less_le [OF ci _ _ _ 1, of z] show ?thesis
      unfolding c by (simp add: orElse_def)
  next
    case 2
    from Cons.prems(2) consider "compareIdentifiers y z < 0"
      | "compareIdentifiers y z = 0" "compareLists ys zs \<le> 0"
      unfolding b c by (auto simp: orElse_def split: if_splits)
    then show ?thesis
    proof cases
      case 1
      with consistent_le_less [OF ci, of x y z] 2(1) show ?thesis
        unfolding c by (simp add: orElse_def)
    next
      case 2
      note yz = this
      from consistent_eq_trans [OF ci, of x y z] \<open>compareIdentifiers x y = 0\<close> yz(1)
      have "compareIdentifiers x z = 0" by simp
      moreover from Cons.IH [OF \<open>compareLists xs ys \<le> 0\<close> yz(2)] have "compareLists xs zs \<le> 0" .
      ultimately show ?thesis unfolding c by (simp add: orElse_def)
    qed
  qed
qed

lemma consistent_comparePre: "consistent UNIV comparePre"
proof (rule consistentI)
  fix a b :: "ident list"
  show "comparePre a b < 0 \<longleftrightarrow> 0 < comparePre b a"
    using compareLists_anti [of a b] by (auto simp: comparePre_def)
next
  fix a b c :: "ident list"
  assume le: "comparePre a b \<le> 0" "comparePre b c \<le> 0"
  show "comparePre a c \<le> 0"
  proof (cases "c = []")
    case True
    then show ?thesis by (cases a) (simp_all add: comparePre_def)
  next
    case False
    with le(2) have b: "b \<noteq> []" by (auto simp: comparePre_def split: if_splits)
    with le(1) have a: "a \<noteq> []" by (auto simp: comparePre_def split: if_splits)
    from le a b False have "compareLists a b \<le> 0" "compareLists b c \<le> 0"
      by (simp_all add: comparePre_def)
    then have "compareLists a c \<le> 0" by (rule compareLists_trans)
    with a False show ?thesis by (simp add: comparePre_def)
  qed
qed

lemma consistent_compareSemVer: "consistent UNIV compareSemVer"
proof -
  note n = consistent_key [OF consistent_compareNumbers, simplified]
  have "consistent UNIV compareMain"
    unfolding compareMain_def
    by (intro consistent_orElse n [of major] n [of minor] n [of patch])
  moreover have "consistent UNIV (\<lambda>a b. comparePre (prerelease a) (prerelease b))"
    using consistent_key [OF consistent_comparePre, of prerelease] by simp
  ultimately show ?thesis
    unfolding compareSemVer_def by (rule consistent_orElse)
qed

lemma consistent_sampleRcompare: "consistent {v. sampleValid v} sampleRcompare"
proof (rule consistentI)
  fix a b assume "a \<in> {v. sampleValid v}" "b \<in> {v. sampleValid v}"
  then obtain x y where "parseSemVer a = Some x" "parseSemVer b = Some y"
    by (auto simp: sampleValid_def)
  with consistent_anti [OF consistent_compareSemVer, of y x]
  show "sampleRcompare a b < 0 \<longleftrightarrow> 0 < sampleRcompare b a"
    by (simp add: sampleRcompare_def)
next
  fix a b c
  assume "a \<in> {v. sampleValid v}" "b \<in> {v. sampleValid v}" "c \<in> {v. sampleValid v}"
  then obtain x y z where p: "parseSemVer a = Some x" "parseSemVer b = Some y" "parseSemVer c = Some z"
    by (auto simp: sampleValid_def)
  assume "sampleRcompare a b \<le> 0" "sampleRcompare b c \<le> 0"
  with p have "compareSemVer z y \<le> 0" "compareSemVer y x \<le> 0"
    by (simp_all add: sampleRcompare_def)
  with consistentD(2) [OF consistent_compareSemVer, of z y x] p
  show "sampleRcompare a c \<le> 0"
    by (simp add: sampleRcompare_def)
qed

lemma sample_versions:
  "sampleValid ''1.0.0''" "sampleValid ''0.9.0''" "sampleValid ''1.0.0-rc.1''"
  "\<not> sampleValid ''not-a-version''" "\<not> sampleValid ''1.0.0@v2''"
  by (simp_all add: semver_defs)

lemma sample_order:
  "sampleRcompare ''1.0.0'' ''0.9.0'' = - 1" "sampleRcompare ''0.9.0'' ''1.0.0'' = 1"
  "sampleRcompare ''1.0.0'' ''1.0.0-rc.1'' = - 1" "sampleRcompare ''1.0.0-rc.1'' ''1.0.0'' = 1"
  "sampleRcompare ''1.0.0-rc.1'' ''0.9.0'' = - 1" "sampleRcompare ''0.9.0'' ''1.0.0-rc.1'' = 1"
  by (simp_all add: semver_defs)

definition release_1_0_0 :: GitHubRelease where
  "release_1_0_0 = makeRelease ''my-ext@v1.0.0'' ''my-ext.tar.gz'' []"

definition release_0_9_0 :: GitHubRelease where
  "release_0_9_0 = makeRelease ''my-ext@v0.9.0'' ''my-ext.tar.gz'' []"

definition version_1_0_0 :: ExtensionVersion where
  "version_1_0_0 = \<lparr> version = ''1.0.0'', released = ''2024-06-01T00:00:00Z'',
          url = ''https://example.com/my-ext.tar.gz'',
          minimumConnectVersion = JStr ''2024.01.0'',
          requiredFeatures = None, requiredEnvironment = None \<rparr>"

lemma sample_parse_1_0_0:
  "parseExtensionRelease sampleHost release_1_0_0 ''my-ext'' (makeManifest ''my-ext'' ''1.0.0'') =
     Some version_1_0_0"
  by (simp add: release_1_0_0_def version_1_0_0_def sample_release_plain)

lemma sample_parse_0_9_0:
  "parseExtensionRelease sampleHost release_0_9_0 ''my-ext'' (makeManifest ''my-ext'' ''1.0.0'') =
     Some (version_1_0_0\<lparr>version := ''0.9.0''\<rparr>)"
  by (simp add: release_0_9_0_def version_1_0_0_def parse_defs sample_defs)

lemma sample_extensionReleases:
  "extensionReleases sampleHost (makeManifest ''my-ext'' ''1.0.0'') [release_0_9_0, release_1_0_0] =
     [version_1_0_0, version_1_0_0\<lparr>version := ''0.9.0''\<rparr>]"
proof -
  have n: "m_name (extension (makeManifest ''my-ext'' ''1.0.0'')) = ''my-ext''"
    by (simp add: makeManifest_def)
  show ?thesis
    unfolding extensionReleases_def n
    by (simp add: sample_parse_1_0_0 sample_parse_0_9_0 sortWith_Cons version_1_0_0_def)
      (simp add: sampleHost_def sample_order)
qed

lemma sample_buildExtensions:
  "buildExtensions sampleHost [(''my-ext'', makeManifest ''my-ext'' ''1.0.0'')]
     [release_0_9_0, release_1_0_0] =
   [toExtension (makeManifest ''my-ext'' ''1.0.0'') version_1_0_0
      [version_1_0_0, version_1_0_0\<lparr>version := ''0.9.0''\<rparr>]]"
proof -
  have v: "m_version (extension (makeManifest ''my-ext'' ''1.0.0'')) \<noteq> ''0.0.0''"
    by (simp add: makeManifest_def)
  show ?thesis
    unfolding buildExtensions_def
    by (simp add: v sample_extensionReleases sortWith_Cons)
qed

lemma sample_unreleased_matches:
  "parseExtensionRelease sampleHost (makeRelease ''unreleased@v0.0.1'' ''unreleased.tar.gz'' [])
     ''unreleased'' (makeManifest ''unreleased'' ''0.0.0'') \<noteq> None"
  by (simp add: parse_defs sample_defs)

theorem buildExtensions_released_only_witness:
  "parseExtensionRelease sampleHost (makeRelease ''unreleased@v0.0.1'' ''unreleased.tar.gz'' [])
     ''unreleased'' (makeManifest ''unreleased'' ''0.0.0'') \<noteq> None \<and>
   buildExtensions sampleHost [(''unreleased'', makeManifest ''unreleased'' ''0.0.0'')]
     [makeRelease ''unreleased@v0.0.1'' ''unreleased.tar.gz'' []] = [] \<and>
   buildExtensions sampleHost [(''no-releases'', makeManifest ''no-releases'' ''1.0.0'')] [] = [] \<and>
   (\<exists>e. buildExtensions sampleHost [(''my-ext'', makeManifest ''my-ext'' ''1.0.0'')]
          [release_0_9_0, release_1_0_0] = [e] \<and>
        versions e \<noteq> [] \<and> name e = ''my-ext'')"
proof -
  let ?u = "makeManifest ''unreleased'' ''0.0.0''"
  let ?n = "makeManifest ''no-releases'' ''1.0.0''"
  let ?m = "makeManifest ''my-ext'' ''1.0.0''"
  let ?rs = "[makeRelease ''unreleased@v0.0.1'' ''unreleased.tar.gz'' []]"
  have "(\<forall>m\<in>snd ` set [(''unreleased'', ?u)]. m_version (extension m) = ''0.0.0'') \<longrightarrow>
      buildExtensions sampleHost [(''unreleased'', ?u)] ?rs = []"
    using buildExtensions_released_only [of sampleHost "[(''unreleased'', ?u)]" ?rs]
    by (elim conjE)
  then have a: "buildExtensions sampleHost [(''unreleased'', ?u)] ?rs = []"
    by (rule mp) (simp add: makeManifest_def)
  from buildExtensions_released_only [of sampleHost "[(''no-releases'', ?n)]" "[]"]
  have b: "buildExtensions sampleHost [(''no-releases'', ?n)] [] = []"
    by simp
  let ?e = "toExtension ?m version_1_0_0 [version_1_0_0, version_1_0_0\<lparr>version := ''0.9.0''\<rparr>]"
  from buildExtensions_released_only [of sampleHost "[(''my-ext'', ?m)]" "[release_0_9_0, release_1_0_0]"]
  have "versions ?e \<noteq> [] \<and> (\<exists>m\<in>snd ` set [(''my-ext'', ?m)]. name ?e = m_name (extension m))"
    unfolding sample_buildExtensions by simp
  then have c: "versions ?e \<noteq> [] \<and> name ?e = ''my-ext''"
    by (simp add: makeManifest_def)
  note c1 = c [THEN conjunct1] and c2 = c [THEN conjunct2]
  show ?thesis
    by (intro conjI exI [of _ ?e]) (fact sample_unreleased_matches a b sample_buildExtensions c1 c2)+
qed

text \<open>
  Claim C4: the versions of an emitted extension are all the non-rejected versions of
  its manifest, sorted by descending precedence under the semver comparison (a version
  never precedes one of higher precedence), versions of equal precedence in the order
  of the input, and \<^verbatim>\<open>latestVersion\<close> is \<^verbatim>\<open>versions[0]\<close>. The comparison is the
  package's; it has to be a consistent comparator on the valid versions.
\<close>

theorem versions_sorted_descending:
  assumes "consistent {v. semverValid h v} (semverRcompare h)"
    and "e \<in> set (buildExtensions h ms rs)"
  shows "\<exists>m\<in>snd ` set ms.
           name e = m_name (extension m) \<and>
           mset (versions e) = mset (keptVersions h m rs) \<and>
           sorted_wrt (\<lambda>a b. semverRcompare h (version a) (version b) \<le> 0) (versions e) \<and>
           (\<forall>k. semverValid h k \<longrightarrow>
              filter (\<lambda>v. semverRcompare h k (version v) = 0) (versions e) =
              filter (\<lambda>v. semverRcompare h k (version v) = 0) (keptVersions h m rs)) \<and>
           nth_opt (versions e) 0 = Some (latestVersion e)"
proof -
  let ?cmp = "\<lambda>a b. semverRcompare h (version a) (version b)"
  from assms(2) obtain m where m: "m \<in> snd ` set ms" "eligible h rs m" "e = extensionFor h rs m"
    unfolding set_buildExtensions by blast
  have vs: "versions e = sortWith ?cmp (keptVersions h m rs)"
    by (simp add: m(3) extensionFor_fields extensionReleases_sortWith)
  have cons: "consistent {x. version x \<in> {v. semverValid h v}} ?cmp"
    by (rule consistent_key [OF assms(1)])
  have sub: "set (keptVersions h m rs) \<subseteq> {x. version x \<in> {v. semverValid h v}}"
    using keptVersions_valid [of _ h m rs] by auto
  have 1: "mset (versions e) = mset (keptVersions h m rs)"
    by (simp add: vs mset_sortWith)
  have 2: "sorted_wrt (\<lambda>a b. ?cmp a b \<le> 0) (versions e)"
    unfolding vs by (rule sorted_sortWith [OF cons sub])
  have 3: "filter (\<lambda>v. semverRcompare h k (version v) = 0) (versions e) =
           filter (\<lambda>v. semverRcompare h k (version v) = 0) (keptVersions h m rs)"
    if "semverValid h k" for k
  proof -
    let ?k = "\<lparr> version = k, released = [], url = [], minimumConnectVersion = JNull,
                requiredFeatures = None, requiredEnvironment = None \<rparr>"
    have "?k \<in> {x. version x \<in> {v. semverValid h v}}" using that by simp
    from stable_sortWith [OF cons this sub] show ?thesis by (simp add: vs)
  qed
  from m(2) have "versions e \<noteq> []"
    by (simp add: m(3) extensionFor_fields eligible_def extensionReleases_Nil)
  then have 4: "nth_opt (versions e) 0 = Some (latestVersion e)"
    by (simp add: m(3) extensionFor_fields nth_opt_hd)
  from m(1,3) 1 2 3 4 show ?thesis
    by (auto simp: extensionFor_fields intro!: bexI [of _ m])
qed

lemma sample_host_fields:
  "semverValid sampleHost = sampleValid" "semverRcompare sampleHost = sampleRcompare"
  "localeCompare sampleHost = sortCompare"
  by (simp_all add: sampleHost_def)

definition release_1_0_0_rc_1 :: GitHubRelease where
  "release_1_0_0_rc_1 = makeRelease ''my-ext@v1.0.0-rc.1'' ''my-ext.tar.gz'' []"

lemma sample_parse_1_0_0_rc_1:
  "parseExtensionRelease sampleHost release_1_0_0_rc_1 ''my-ext'' (makeManifest ''my-ext'' ''1.0.0'') =
     Some (version_1_0_0\<lparr>version := ''1.0.0-rc.1''\<rparr>)"
  by (simp add: release_1_0_0_rc_1_def version_1_0_0_def parse_defs sample_defs)

lemma sample_keptVersions:
  "keptVersions sampleHost (makeManifest ''my-ext'' ''1.0.0'')
     [release_0_9_0, release_1_0_0_rc_1, release_1_0_0] =
   [version_1_0_0\<lparr>version := ''0.9.0''\<rparr>, version_1_0_0\<lparr>version := ''1.0.0-rc.1''\<rparr>,
    version_1_0_0]"
proof -
  have n: "m_name (extension (makeManifest ''my-ext'' ''1.0.0'')) = ''my-ext''"
    by (simp add: makeManifest_def)
  show ?thesis
    unfolding keptVersions_def n
    by (simp add: List.map_filter_simps sample_parse_0_9_0 sample_parse_1_0_0_rc_1 sample_parse_1_0_0)
qed

lemma sample_extensionReleases_rc:
  "extensionReleases sampleHost (makeManifest ''my-ext'' ''1.0.0'')
     [release_0_9_0, release_1_0_0_rc_1, release_1_0_0] =
   [version_1_0_0, version_1_0_0\<lparr>version := ''1.0.0-rc.1''\<rparr>,
    version_1_0_0\<lparr>version := ''0.9.0''\<rparr>]"
  unfolding extensionReleases_sortWith sample_keptVersions
  by (simp add: sortWith_Cons version_1_0_0_def sample_host_fields sample_order)

lemma sample_buildExtensions_rc:
  "buildExtensions sampleHost [(''my-ext'', makeManifest ''my-ext'' ''1.0.0'')]
     [release_0_9_0, release_1_0_0_rc_1, release_1_0_0] =
   [toExtension (makeManifest ''my-ext'' ''1.0.0'') version_1_0_0
      [version_1_0_0, version_1_0_0\<lparr>version := ''1.0.0-rc.1''\<rparr>,
       version_1_0_0\<lparr>version := ''0.9.0''\<rparr>]]"
proof -
  have v: "m_version (extension (makeManifest ''my-ext'' ''1.0.0'')) \<noteq> ''0.0.0''"
    by (simp add: makeManifest_def)
  show ?thesis
    unfolding buildExtensions_def
    by (simp add: v sample_extensionReleases_rc sortWith_Cons)
qed

theorem versions_sorted_descending_witness:
  "consistent {v. semverValid sampleHost v} (semverRcompare sampleHost) \<and>
   (\<exists>e. buildExtensions sampleHost [(''my-ext'', makeManifest ''my-ext'' ''1.0.0'')]
          [release_0_9_0, release_1_0_0] = [e] \<and>
        map version (versions e) = [''1.0.0'', ''0.9.0''] \<and>
        version (latestVersion e) = ''1.0.0'') \<and>
   (\<exists>e. buildExtensions sampleHost [(''my-ext'', makeManifest ''my-ext'' ''1.0.0'')]
          [release_0_9_0, release_1_0_0_rc_1, release_1_0_0] = [e] \<and>
        map version (keptVersions sampleHost (makeManifest ''my-ext'' ''1.0.0'')
          [release_0_9_0, release_1_0_0_rc_1, release_1_0_0]) = [''0.9.0'', ''1.0.0-rc.1'', ''1.0.0''] \<and>
        map version (versions e) = [''1.0.0'', ''1.0.0-rc.1'', ''0.9.0''] \<and>
        version (latestVersion e) = ''1.0.0'' \<and>
        nth_opt (versions e) 0 = Some (latestVersion e) \<and>
        sorted_wrt (\<lambda>a b. semverRcompare sampleHost (version a) (version b) \<le> 0) (versions e))"
proof -
  let ?m = "makeManifest ''my-ext'' ''1.0.0''"
  let ?rs = "[release_0_9_0, release_1_0_0_rc_1, release_1_0_0]"
  let ?d = "toExtension ?m version_1_0_0 [version_1_0_0, version_1_0_0\<lparr>version := ''0.9.0''\<rparr>]"
  let ?e = "toExtension ?m version_1_0_0
      [version_1_0_0, version_1_0_0\<lparr>version := ''1.0.0-rc.1''\<rparr>,
       version_1_0_0\<lparr>version := ''0.9.0''\<rparr>]"
  have c: "consistent {v. semverValid sampleHost v} (semverRcompare sampleHost)"
    unfolding sample_host_fields by (rule consistent_sampleRcompare)
  have e: "?e \<in> set (buildExtensions sampleHost [(''my-ext'', ?m)] ?rs)"
    unfolding sample_buildExtensions_rc by simp
  have "\<exists>m\<in>snd ` set [(''my-ext'', ?m)].
           name ?e = m_name (extension m) \<and>
           mset (versions ?e) = mset (keptVersions sampleHost m ?rs) \<and>
           sorted_wrt (\<lambda>a b. semverRcompare sampleHost (version a) (version b) \<le> 0) (versions ?e) \<and>
           (\<forall>k. semverValid sampleHost k \<longrightarrow>
              filter (\<lambda>v. semverRcompare sampleHost k (version v) = 0) (versions ?e) =
              filter (\<lambda>v. semverRcompare sampleHost k (version v) = 0)
                (keptVersions sampleHost m ?rs)) \<and>
           nth_opt (versions ?e) 0 = Some (latestVersion ?e)"
    (is "\<exists>m\<in>_. ?P m")
    by (rule versions_sorted_descending [OF c e])
  then obtain m where m: "?P m" ..
  from m have s: "sorted_wrt (\<lambda>a b. semverRcompare sampleHost (version a) (version b) \<le> 0) (versions ?e)"
    by (elim conjE)
  from m have l: "nth_opt (versions ?e) 0 = Some (latestVersion ?e)"
    by (elim conjE)
  have k: "map version (keptVersions sampleHost ?m ?rs) = [''0.9.0'', ''1.0.0-rc.1'', ''1.0.0'']"
    unfolding sample_keptVersions by (simp add: version_1_0_0_def)
  have v: "map version (versions ?e) = [''1.0.0'', ''1.0.0-rc.1'', ''0.9.0'']"
    and t: "version (latestVersion ?e) = ''1.0.0''"
    and v2: "map version (versions ?d) = [''1.0.0'', ''0.9.0'']"
    and t2: "version (latestVersion ?d) = ''1.0.0''"
    by (simp_all add: toExtension_def version_1_0_0_def)
  show ?thesis
    by (intro conjI exI [of _ ?e] exI [of _ ?d])
      (fact c sample_buildExtensions sample_buildExtensions_rc k v t v2 t2 l s)+
qed

text \<open>
  Claim C8: the extensions are returned in ascending order of their names under
  \<^verbatim>\<open>localeCompare\<close> (a consistent comparator on strings); they are the extensions the
  loop pushed, rearranged.
\<close>

theorem buildExtensions_sorted_by_name:
  assumes "consistent UNIV (localeCompare h)"
  shows "sorted_wrt (\<lambda>a b. localeCompare h (name a) (name b) \<le> 0) (buildExtensions h ms rs) \<and>
         mset (buildExtensions h ms rs) = mset (pushExtensions h ms rs) \<and>
         (\<forall>k. filter (\<lambda>e. localeCompare h k (name e) = 0) (buildExtensions h ms rs) =
              filter (\<lambda>e. localeCompare h k (name e) = 0) (pushExtensions h ms rs))"
proof -
  let ?cmp = "\<lambda>a b. localeCompare h (name a) (name b)"
  have cons: "consistent {x. name x \<in> UNIV} ?cmp"
    by (rule consistent_key [OF assms])
  have 1: "sorted_wrt (\<lambda>a b. ?cmp a b \<le> 0) (buildExtensions h ms rs)"
    unfolding buildExtensions_def by (rule sorted_sortWith [OF cons]) simp
  have 2: "mset (buildExtensions h ms rs) = mset (pushExtensions h ms rs)"
    by (simp add: buildExtensions_def mset_sortWith)
  have 3: "filter (\<lambda>e. localeCompare h k (name e) = 0) (buildExtensions h ms rs) =
           filter (\<lambda>e. localeCompare h k (name e) = 0) (pushExtensions h ms rs)" for k
  proof -
    let ?k = "\<lparr> name = k, title = [], description = [], homepage = [],
                latestVersion = undefined, versions = [], tags = [], category = None \<rparr>"
    have "?k \<in> {x. name x \<in> UNIV}" by simp
    from stable_sortWith [OF cons this, of "pushExtensions h ms rs"] show ?thesis
      by (simp add: buildExtensions_def)
  qed
  from 1 2 3 show ?thesis by blast
qed

definition zebraAlphaManifests :: "(string \<times> ExtensionManifest) list" where
  "zebraAlphaManifests =
     [(''zebra'', makeManifest ''zebra'' ''1.0.0''), (''alpha'', makeManifest ''alpha'' ''1.0.0'')]"

definition zebraAlphaReleases :: "GitHubRelease list" where
  "zebraAlphaReleases =
     [makeRelease ''zebra@v1.0.0'' ''zebra.tar.gz'' [], makeRelease ''alpha@v1.0.0'' ''alpha.tar.gz'' []]"

lemma sample_zebra_parse:
  "parseExtensionRelease sampleHost (makeRelease ''zebra@v1.0.0'' ''zebra.tar.gz'' []) ''zebra''
     (makeManifest ''zebra'' ''1.0.0'') \<noteq> None"
  "parseExtensionRelease sampleHost (makeRelease ''alpha@v1.0.0'' ''alpha.tar.gz'' []) ''zebra''
     (makeManifest ''zebra'' ''1.0.0'') = None"
  "parseExtensionRelease sampleHost (makeRelease ''zebra@v1.0.0'' ''zebra.tar.gz'' []) ''alpha''
     (makeManifest ''alpha'' ''1.0.0'') = None"
  "parseExtensionRelease sampleHost (makeRelease ''alpha@v1.0.0'' ''alpha.tar.gz'' []) ''alpha''
     (makeManifest ''alpha'' ''1.0.0'') \<noteq> None"
  by (simp_all add: parse_defs sample_defs)

lemma sample_zebra_eligible:
  "filter (eligible sampleHost zebraAlphaReleases) (map snd zebraAlphaManifests) =
     [makeManifest ''zebra'' ''1.0.0'', makeManifest ''alpha'' ''1.0.0'']"
proof -
  have n: "m_name (extension (makeManifest ''zebra'' ''1.0.0'')) = ''zebra''"
    "m_name (extension (makeManifest ''alpha'' ''1.0.0'')) = ''alpha''"
    "m_version (extension (makeManifest ''zebra'' ''1.0.0'')) \<noteq> ''0.0.0''"
    "m_version (extension (makeManifest ''alpha'' ''1.0.0'')) \<noteq> ''0.0.0''"
    by (simp_all add: makeManifest_def)
  have z: "eligible sampleHost zebraAlphaReleases (makeManifest ''zebra'' ''1.0.0'')"
    unfolding eligible_def keptVersions_def zebraAlphaReleases_def n(1)
    using n(3) sample_zebra_parse(1,2) by (auto simp: List.map_filter_simps)
  have a: "eligible sampleHost zebraAlphaReleases (makeManifest ''alpha'' ''1.0.0'')"
    unfolding eligible_def keptVersions_def zebraAlphaReleases_def n(2)
    using n(4) sample_zebra_parse(3,4) by (auto simp: List.map_filter_simps)
  from z a show ?thesis by (simp add: zebraAlphaManifests_def)
qed

lemma sample_zebra_alpha:
  "map name (pushExtensions sampleHost zebraAlphaManifests zebraAlphaReleases) = [''zebra'', ''alpha'']"
  "map name (buildExtensions sampleHost zebraAlphaManifests zebraAlphaReleases) = [''alpha'', ''zebra'']"
proof -
  have n: "m_name (extension (makeManifest ''zebra'' ''1.0.0'')) = ''zebra''"
    "m_name (extension (makeManifest ''alpha'' ''1.0.0'')) = ''alpha''"
    by (simp_all add: makeManifest_def)
  show "map name (pushExtensions sampleHost zebraAlphaManifests zebraAlphaReleases) = [''zebra'', ''alpha'']"
    by (simp add: pushExtensions_eligible sample_zebra_eligible extensionFor_fields n)
  have "buildExtensions sampleHost zebraAlphaManifests zebraAlphaReleases =
      [extensionFor sampleHost zebraAlphaReleases (makeManifest ''alpha'' ''1.0.0''),
       extensionFor sampleHost zebraAlphaReleases (makeManifest ''zebra'' ''1.0.0'')]"
    unfolding buildExtensions_def pushExtensions_eligible sample_zebra_eligible
    by (simp add: sortWith_Cons extensionFor_fields n sample_host_fields sortCompare_def)
  then show "map name (buildExtensions sampleHost zebraAlphaManifests zebraAlphaReleases) = [''alpha'', ''zebra'']"
    by (simp add: extensionFor_fields n)
qed

theorem buildExtensions_sorted_by_name_witness:
  "consistent UNIV (localeCompare sampleHost) \<and>
   localeCompare sampleHost ''alpha'' ''zebra'' < 0 \<and>
   map name (pushExtensions sampleHost zebraAlphaManifests zebraAlphaReleases) = [''zebra'', ''alpha''] \<and>
   map name (buildExtensions sampleHost zebraAlphaManifests zebraAlphaReleases) = [''alpha'', ''zebra''] \<and>
   sorted_wrt (\<lambda>a b. localeCompare sampleHost (name a) (name b) \<le> 0)
     (buildExtensions sampleHost zebraAlphaManifests zebraAlphaReleases)"
proof -
  have c: "consistent UNIV (localeCompare sampleHost)"
    unfolding sample_host_fields by (rule consistent_sortCompare)
  have l: "localeCompare sampleHost ''alpha'' ''zebra'' < 0"
    by (simp add: sample_host_fields sortCompare_def)
  have "sorted_wrt (\<lambda>a b. localeCompare sampleHost (name a) (name b) \<le> 0)
     (buildExtensions sampleHost zebraAlphaManifests zebraAlphaReleases)"
    by (rule buildExtensions_sorted_by_name [OF c, THEN conjunct1])
  with c l sample_zebra_alpha show ?thesis
    by (intro conjI)
qed

section \<open>\<^verbatim>\<open>collectTagsAndFeatures\<close> and \<^verbatim>\<open>buildOutput\<close>\<close>

text \<open>
  A \<^verbatim>\<open>Set<string>\<close> is the list of its elements in insertion order, without
  duplicates; \<^verbatim>\<open>add\<close> appends an element that is not in the set yet.
\<close>

definition setAdd :: "string list \<Rightarrow> string \<Rightarrow> string list" where
  "setAdd s x = (if x \<in> set s then s else s @ [x])"

text \<open>\<^verbatim>\<open>xs || []\<close> for an optional array.\<close>

definition orEmpty :: "'a list option \<Rightarrow> 'a list" where
  "orEmpty xs = (case xs of None \<Rightarrow> [] | Some ys \<Rightarrow> ys)"

text \<open>The body of the loop over the manifests, lines 110 to 115.\<close>

definition collectStep ::
  "string \<times> ExtensionManifest \<Rightarrow> string list \<times> string list \<Rightarrow> string list \<times> string list" where
  "collectStep = (\<lambda>(key, manifest) (allTags, allFeatures).
     (fold (\<lambda>tag s. setAdd s tag) (orEmpty (m_tags (extension manifest))) allTags,
      fold (\<lambda>feature s. setAdd s feature)
        (orEmpty (m_requiredFeatures (extension manifest))) allFeatures))"

definition collectTagsAndFeatures ::
  "(string \<times> ExtensionManifest) list \<Rightarrow> string list \<times> string list" where
  "collectTagsAndFeatures manifests = fold collectStep manifests ([], [])"

record GalleryOutput =
  out_categories :: "Category list"
  out_tags :: "string list"
  out_requiredFeatures :: "string list"
  out_extensions :: "Extension list"

text \<open>\<^verbatim>\<open>[...set].sort()\<close>: the default order of \<^verbatim>\<open>sort\<close> on strings.\<close>

definition buildOutput ::
  "Extension list \<Rightarrow> GalleryConfig \<Rightarrow> string list \<Rightarrow> string list \<Rightarrow> GalleryOutput" where
  "buildOutput extensions config allTags allFeatures = \<lparr>
     out_categories = categories config,
     out_tags = sortWith sortCompare allTags,
     out_requiredFeatures = sortWith sortCompare allFeatures,
     out_extensions = extensions \<rparr>"

lemma set_fold_setAdd: "set (fold (\<lambda>x s. setAdd s x) xs acc) = set acc \<union> set xs"
  by (induction xs arbitrary: acc) (auto simp: setAdd_def)

lemma distinct_fold_setAdd: "distinct acc \<Longrightarrow> distinct (fold (\<lambda>x s. setAdd s x) xs acc)"
  by (induction xs arbitrary: acc) (auto simp: setAdd_def)

lemma collect_fold:
  "set (fst (fold collectStep ms (T, F))) =
     set T \<union> (\<Union>m\<in>snd ` set ms. set (orEmpty (m_tags (extension m)))) \<and>
   set (snd (fold collectStep ms (T, F))) =
     set F \<union> (\<Union>m\<in>snd ` set ms. set (orEmpty (m_requiredFeatures (extension m)))) \<and>
   (distinct T \<longrightarrow> distinct (fst (fold collectStep ms (T, F)))) \<and>
   (distinct F \<longrightarrow> distinct (snd (fold collectStep ms (T, F))))"
proof (induction ms arbitrary: T F)
  case Nil
  show ?case by simp
next
  case (Cons km ms)
  obtain k m where km: "km = (k, m)" by (cases km)
  let ?T = "fold (\<lambda>tag s. setAdd s tag) (orEmpty (m_tags (extension m))) T"
  let ?F = "fold (\<lambda>feature s. setAdd s feature) (orEmpty (m_requiredFeatures (extension m))) F"
  have step: "fold collectStep (km # ms) (T, F) = fold collectStep ms (?T, ?F)"
    by (simp add: km collectStep_def)
  show ?case
    unfolding step using Cons.IH [of ?T ?F]
    by (auto simp: km set_fold_setAdd distinct_fold_setAdd)
qed

lemma set_orEmpty: "set (orEmpty x) = (\<Union>ys\<in>{ys. x = Some ys}. set ys)"
  by (cases x) (auto simp: orEmpty_def)

lemma sortCompare_le: "sortCompare a b \<le> 0 \<longleftrightarrow> a \<le> b"
  by (auto simp: sortCompare_def)

lemma sorted_default:
  "sorted (sortWith sortCompare xs)"
  using sorted_sortWith [OF consistent_sortCompare, of xs] by (simp add: sortCompare_le)

lemma strict_sorted_default:
  assumes "distinct xs"
  shows "sorted_wrt (<) (sortWith sortCompare xs)"
proof -
  have "distinct (sortWith sortCompare xs)"
    using assms mset_sortWith [of sortCompare xs] by (metis mset_eq_imp_distinct_iff)
  with sorted_default [of xs] show ?thesis
    by (simp add: strict_sorted_iff)
qed

text \<open>
  Claim C9: \<^verbatim>\<open>collectTagsAndFeatures\<close> returns the union of the manifests' tag lists
  and the union of their \<^verbatim>\<open>requiredFeatures\<close> lists, each element once, a manifest
  without the list contributing nothing; \<^verbatim>\<open>buildOutput\<close> emits a tag set and a feature
  set in strictly ascending order with the same elements, copies the categories and
  keeps the extension list.
\<close>

theorem collect_union_output_sorted:
  "set (fst (collectTagsAndFeatures ms)) =
     (\<Union>m\<in>snd ` set ms. \<Union>ts\<in>{ts. m_tags (extension m) = Some ts}. set ts) \<and>
   set (snd (collectTagsAndFeatures ms)) =
     (\<Union>m\<in>snd ` set ms. \<Union>fs\<in>{fs. m_requiredFeatures (extension m) = Some fs}. set fs) \<and>
   distinct (fst (collectTagsAndFeatures ms)) \<and> distinct (snd (collectTagsAndFeatures ms)) \<and>
   (distinct T \<and> distinct F \<longrightarrow>
      sorted_wrt (<) (out_tags (buildOutput es cfg T F)) \<and>
      sorted_wrt (<) (out_requiredFeatures (buildOutput es cfg T F))) \<and>
   set (out_tags (buildOutput es cfg T F)) = set T \<and>
   set (out_requiredFeatures (buildOutput es cfg T F)) = set F \<and>
   out_categories (buildOutput es cfg T F) = categories cfg \<and>
   out_extensions (buildOutput es cfg T F) = es"
proof -
  have 1: "set (fst (collectTagsAndFeatures ms)) =
     (\<Union>m\<in>snd ` set ms. \<Union>ts\<in>{ts. m_tags (extension m) = Some ts}. set ts)"
    using collect_fold [of ms "[]" "[]"] unfolding collectTagsAndFeatures_def set_orEmpty by simp
  have 2: "set (snd (collectTagsAndFeatures ms)) =
     (\<Union>m\<in>snd ` set ms. \<Union>fs\<in>{fs. m_requiredFeatures (extension m) = Some fs}. set fs)"
    using collect_fold [of ms "[]" "[]"] unfolding collectTagsAndFeatures_def set_orEmpty by simp
  have 3: "distinct (fst (collectTagsAndFeatures ms))" "distinct (snd (collectTagsAndFeatures ms))"
    using collect_fold [of ms "[]" "[]"] unfolding collectTagsAndFeatures_def by simp_all
  have 4: "sorted_wrt (<) (out_tags (buildOutput es cfg T F)) \<and>
      sorted_wrt (<) (out_requiredFeatures (buildOutput es cfg T F))" if "distinct T \<and> distinct F"
    using that by (simp add: buildOutput_def strict_sorted_default)
  have 5: "set (out_tags (buildOutput es cfg T F)) = set T"
    "set (out_requiredFeatures (buildOutput es cfg T F)) = set F"
    "out_categories (buildOutput es cfg T F) = categories cfg"
    "out_extensions (buildOutput es cfg T F) = es"
    by (simp_all add: buildOutput_def set_sortWith)
  from 1 2 3 4 5 show ?thesis by blast
qed

definition withTags ::
  "ExtensionManifest \<Rightarrow> string list option \<Rightarrow> string list option \<Rightarrow> ExtensionManifest" where
  "withTags m ts fs = m\<lparr>extension := (extension m)\<lparr>m_tags := ts, m_requiredFeatures := fs\<rparr>\<rparr>"

definition taggedManifests :: "(string \<times> ExtensionManifest) list" where
  "taggedManifests =
     [(''a'', withTags (makeManifest ''my-ext'' ''1.0.0'') (Some [''python'', ''data'']) (Some [''gpu''])),
      (''b'', withTags (makeManifest ''my-ext'' ''1.0.0'') (Some [''python'', ''ml'']) (Some [''gpu'', ''cuda''])),
      (''c'', withTags (makeManifest ''my-ext'' ''1.0.0'') None None)]"

lemma sample_collect:
  "collectTagsAndFeatures taggedManifests = ([''python'', ''data'', ''ml''], [''gpu'', ''cuda''])"
  by (simp add: collectTagsAndFeatures_def collectStep_def taggedManifests_def withTags_def
      makeManifest_def orEmpty_def setAdd_def)

lemma sample_output:
  "out_tags (buildOutput [] \<lparr>categories = []\<rparr> [''z-tag'', ''a-tag''] [''z-feat'', ''a-feat'']) =
     [''a-tag'', ''z-tag'']"
  "out_requiredFeatures (buildOutput [] \<lparr>categories = []\<rparr> [''z-tag'', ''a-tag''] [''z-feat'', ''a-feat'']) =
     [''a-feat'', ''z-feat'']"
  by (simp_all add: buildOutput_def sortWith_Cons sortCompare_def)

theorem collect_union_output_sorted_witness:
  "collectTagsAndFeatures taggedManifests = ([''python'', ''data'', ''ml''], [''gpu'', ''cuda'']) \<and>
   distinct [''z-tag'', ''a-tag''] \<and> distinct [''z-feat'', ''a-feat''] \<and>
   out_tags (buildOutput [] \<lparr>categories = []\<rparr> [''z-tag'', ''a-tag''] [''z-feat'', ''a-feat'']) =
     [''a-tag'', ''z-tag''] \<and>
   out_requiredFeatures (buildOutput [] \<lparr>categories = []\<rparr> [''z-tag'', ''a-tag''] [''z-feat'', ''a-feat'']) =
     [''a-feat'', ''z-feat''] \<and>
   sorted_wrt (<) (out_tags (buildOutput [] \<lparr>categories = []\<rparr> [''z-tag'', ''a-tag''] [''z-feat'', ''a-feat''])) \<and>
   sorted_wrt (<)
     (out_requiredFeatures (buildOutput [] \<lparr>categories = []\<rparr> [''z-tag'', ''a-tag''] [''z-feat'', ''a-feat'']))"
proof -
  have d: "distinct [''z-tag'', ''a-tag''] \<and> distinct [''z-feat'', ''a-feat'']"
    by simp
  note t = collect_union_output_sorted [of taggedManifests "[''z-tag'', ''a-tag'']" "[''z-feat'', ''a-feat'']"
      "[]" "\<lparr>categories = []\<rparr>"]
  from t have "distinct [''z-tag'', ''a-tag''] \<and> distinct [''z-feat'', ''a-feat''] \<longrightarrow>
      sorted_wrt (<) (out_tags (buildOutput [] \<lparr>categories = []\<rparr> [''z-tag'', ''a-tag''] [''z-feat'', ''a-feat''])) \<and>
      sorted_wrt (<)
        (out_requiredFeatures (buildOutput [] \<lparr>categories = []\<rparr> [''z-tag'', ''a-tag''] [''z-feat'', ''a-feat'']))"
    by (elim conjE)
  from this [THEN mp, OF d] d sample_collect sample_output show ?thesis
    by (intro conjI) (elim conjE, assumption)+
qed

section \<open>The release normalizer\<close>

text \<open>\<^verbatim>\<open>GitHubApiRelease\<close> of \<^verbatim>\<open>types/index.ts\<close>, the shape the REST API returns.\<close>

record GitHubApiAsset =
  api_asset_name :: string
  browser_download_url :: string

record GitHubApiRelease =
  tag_name :: string
  published_at :: string
  api_assets :: "GitHubApiAsset list"
  api_body :: string

text \<open>
  Modelled from the spec: \<^verbatim>\<open>transformGitHubApiReleases\<close>, the release normalizer. The
  tests and the driver import it from \<^verbatim>\<open>generate-gallery-lib\<close>, but the revision of
  that file among the sources does not define it. It maps every raw release to a
  canonical one, in order: \<^verbatim>\<open>tag_name\<close> to \<^verbatim>\<open>tagName\<close>, \<^verbatim>\<open>published_at\<close> to
  \<^verbatim>\<open>publishedAt\<close>, the body as it is, and every asset to its name and its
  \<^verbatim>\<open>browser_download_url\<close> as \<^verbatim>\<open>url\<close>.
\<close>

definition transformGitHubApiReleases :: "GitHubApiRelease list \<Rightarrow> GitHubRelease list" where
  "transformGitHubApiReleases apiReleases =
     map (\<lambda>r. \<lparr>
            tagName = tag_name r,
            publishedAt = published_at r,
            assets = map (\<lambda>a. \<lparr> asset_name = api_asset_name a,
                                 asset_url = browser_download_url a \<rparr>) (api_assets r),
            body = api_body r \<rparr>)
       apiReleases"

text \<open>
  Claim C7: the normalizer returns as many canonical releases as it is given raw ones,
  in the same order; each has the raw release's tag, publication time and body, and as
  many assets, in order, each with the raw asset's name and its download reference as
  \<^verbatim>\<open>url\<close>. A canonical release has no other field.
\<close>

theorem transformGitHubApiReleases_fieldwise:
  "length (transformGitHubApiReleases rs) = length rs \<and>
   map tagName (transformGitHubApiReleases rs) = map tag_name rs \<and>
   map publishedAt (transformGitHubApiReleases rs) = map published_at rs \<and>
   map body (transformGitHubApiReleases rs) = map api_body rs \<and>
   map (\<lambda>c. map asset_name (assets c)) (transformGitHubApiReleases rs) =
     map (\<lambda>r. map api_asset_name (api_assets r)) rs \<and>
   map (\<lambda>c. map asset_url (assets c)) (transformGitHubApiReleases rs) =
     map (\<lambda>r. map browser_download_url (api_assets r)) rs \<and>
   transformGitHubApiReleases (rs @ rs') =
     transformGitHubApiReleases rs @ transformGitHubApiReleases rs'"
  by (simp add: transformGitHubApiReleases_def comp_def)

definition apiRelease :: "string \<Rightarrow> string \<Rightarrow> string \<Rightarrow> GitHubApiRelease" where
  "apiRelease tag link b = \<lparr>
     tag_name = tag,
     published_at = ''2025-01-01T00:00:00Z'',
     api_assets = [\<lparr> api_asset_name = ''ext.tar.gz'', browser_download_url = link \<rparr>],
     api_body = b \<rparr>"

theorem transformGitHubApiReleases_fieldwise_witness:
  "map tagName (transformGitHubApiReleases
     [apiRelease ''ext@v2.0.0'' ''https://example.com/v2.tar.gz'' ''v2'',
      apiRelease ''ext@v1.0.0'' ''https://example.com/v1.tar.gz'' ''v1'']) =
     [''ext@v2.0.0'', ''ext@v1.0.0''] \<and>
   map (\<lambda>c. map asset_url (assets c)) (transformGitHubApiReleases
     [apiRelease ''ext@v2.0.0'' ''https://example.com/v2.tar.gz'' ''v2'',
      apiRelease ''ext@v1.0.0'' ''https://example.com/v1.tar.gz'' ''v1'']) =
     [[''https://example.com/v2.tar.gz''], [''https://example.com/v1.tar.gz'']]"
proof -
  let ?rs = "[apiRelease ''ext@v2.0.0'' ''https://example.com/v2.tar.gz'' ''v2'',
      apiRelease ''ext@v1.0.0'' ''https://example.com/v1.tar.gz'' ''v1'']"
  note t = transformGitHubApiReleases_fieldwise [of ?rs "[]"]
  have a: "map tag_name ?rs = [''ext@v2.0.0'', ''ext@v1.0.0'']"
    and b: "map (\<lambda>r. map browser_download_url (api_assets r)) ?rs =
      [[''https://example.com/v2.tar.gz''], [''https://example.com/v1.tar.gz'']]"
    by (simp_all add: apiRelease_def)
  from t have "map tagName (transformGitHubApiReleases ?rs) = map tag_name ?rs"
    by (elim conjE)
  moreover from t have "map (\<lambda>c. map asset_url (assets c)) (transformGitHubApiReleases ?rs) =
      map (\<lambda>r. map browser_download_url (api_assets r)) ?rs"
    by (elim conjE)
  ultimately show ?thesis unfolding a b by (intro conjI)
qed

end
